theory Spec2Isabelle
  imports Complex_Main "HOL-Library.Sublist" "HOL-Library.Char_ord" "HOL-Library.List_Lexorder"
begin

section \<open>The batch driver of prediction\_Image (Litton 7-type visual landscape model)\<close>

text \<open>
  The theory embeds the function \<open>main\<close> of the script (lines 183--246), the module
  level constants it reads (lines 142--156) and the loop over the sub-folders of the root
  folder that calls it (lines 251--266).

  The library calls of the script are modelled as follows.
  \<^item> The file system is a map from path strings to nodes. Paths are the strings the script
    builds with \<open>os.path.join\<close> (POSIX flavour); two different strings are two
    different paths.
  \<^item> \<open>os.listdir\<close>, the decoding and transformation of an image (lines 207--209), the
    network followed by the softmax (lines 210--211), the failures of \<open>os.mkdir\<close>
    and \<open>shutil.move\<close> that do not depend on the map (permissions and the like) and
    the failures of \<open>DataFrame.to_csv\<close> (an output folder that is missing or cannot be
    written) are parameters, collected in the record \<open>env\<close>.
  \<^item> \<open>list.sort()\<close> on file names is \<open>sort\<close> in the lexicographic order of the codes of
    the characters.
  \<^item> Probabilities are real numbers: the order of the floats of the script without NaN.
  \<^item> An exception is a value; a result \<open>Inl (e, s)\<close> says that \<open>e\<close> was raised in
    state \<open>s\<close>, a result \<open>Inr s\<close> that the code ran to its end.
\<close>

subsection \<open>Exceptions, file system, environment\<close>

datatype exn =
    FileExistsError
  | FileNotFoundError
  | IsADirectoryError
  | NotADirectoryError
  | PermissionError
  | UnidentifiedImageError
  | RuntimeError
  | IndexError
  | ValueError
  | UnboundLocalError
  | ShutilError

datatype node = File string | Dir

type_synonym fsys = "string \<rightharpoonup> node"

record 't env =
  listdir :: "string \<Rightarrow> exn + string list"
  mkdir_fault :: "string \<Rightarrow> exn option"
  preprocess :: "string \<Rightarrow> exn + 't"
  predict :: "'t \<Rightarrow> exn + real list list"
  move_fault :: "string \<Rightarrow> string \<Rightarrow> exn option"
  to_csv_fault :: "string \<Rightarrow> exn option"

text \<open>The two tables handed to \<open>DataFrame.to_csv\<close>: the four columns of the result
  table (lines 233--238) and the single column of the error table (line 242).\<close>

datatype table =
    ResultTable "string list" "string list" "string list" "real list"
  | ErrorTable "string list"

text \<open>
  The state: the file system, the CSV files written so far, and the local variables of
  \<open>main\<close> that outlive one iteration. \<open>name = None\<close> is the unbound local variable.
  \<open>check = None\<close> is its initial value, the integer 0 of line 190.
\<close>

record state =
  fs :: fsys
  written :: "(string \<times> table) list"
  imgname :: "string list"
  imglabel :: "string list"
  imglabelnum :: "string list"
  rate :: "real list"
  error :: "string list"
  check :: "string option"
  name :: "string option"

type_synonym outcome = "(exn \<times> state) + state"

subsection \<open>Module constants (lines 142--156)\<close>

definition labels :: "string list" where
  "labels =
    [''0.Panoramic-landscape'',
     ''1.Feature-landscape'',
     ''2.Detail-landscape'',
     ''3.Enclosed-landscape'',
     ''4.Focal-landscape'',
     ''5.Ephemeral-landscape'',
     ''6.Canopied-landscape'']"

text \<open>\<open>str(i)\<close> for a natural number: its decimal digits.\<close>

fun str_nat :: "nat \<Rightarrow> string" where
  "str_nat n =
     (if n < 10 then [char_of (48 + n)]
      else str_nat (n div 10) @ [char_of (48 + n mod 10)])"

declare str_nat.simps [simp del]

definition labelsnum :: "string list" where
  "labelsnum = map str_nat [0..<length labels]"

definition img_type :: "string list" where
  "img_type = [''.jpg'', ''.bmp'', ''.png'']"

subsection \<open>Strings and paths\<close>

text \<open>\<open>s.find(sub)\<close>: the lowest index at which \<open>sub\<close> occurs in \<open>s\<close>, or -1.\<close>

fun find_from :: "string \<Rightarrow> string \<Rightarrow> nat \<Rightarrow> int" where
  "find_from [] sub k = (if sub = [] then int k else - 1)"
| "find_from (c # cs) sub k =
     (if prefix sub (c # cs) then int k else find_from cs sub (Suc k))"

definition str_find :: "string \<Rightarrow> string \<Rightarrow> int" where
  "str_find s sub = find_from s sub 0"

text \<open>\<open>os.path.join(a, b)\<close> of posixpath.\<close>

definition path_join :: "string \<Rightarrow> string \<Rightarrow> string" where
  "path_join a b =
     (if b \<noteq> [] \<and> hd b = CHR ''/'' then b
      else if a = [] \<or> last a = CHR ''/'' then a @ b
      else a @ ''/'' @ b)"

text \<open>\<open>s.rstrip('/')\<close>, \<open>os.path.basename\<close> and \<open>os.path.dirname\<close> of posixpath.\<close>

definition rstrip_sep :: "string \<Rightarrow> string" where
  "rstrip_sep p = rev (dropWhile (\<lambda>c. c = CHR ''/'') (rev p))"

definition basename :: "string \<Rightarrow> string" where
  "basename p = rev (takeWhile (\<lambda>c. c \<noteq> CHR ''/'') (rev p))"

definition dirname :: "string \<Rightarrow> string" where
  "dirname p =
     (let head = rev (dropWhile (\<lambda>c. c \<noteq> CHR ''/'') (rev p))
      in if head \<noteq> [] \<and> \<not> list_all (\<lambda>c. c = CHR ''/'') head then rstrip_sep head else head)"

subsection \<open>File system operations\<close>

definition isdir :: "fsys \<Rightarrow> string \<Rightarrow> bool" where
  "isdir f p = (f p = Some Dir)"

text \<open>The directory a new node is created in must exist; the empty \<open>dirname\<close> is the
  current directory, which does.\<close>

definition parent_check :: "fsys \<Rightarrow> string \<Rightarrow> exn option" where
  "parent_check f p =
     (let d = dirname p in
      if d = [] then None
      else case f d of
             None \<Rightarrow> Some FileNotFoundError
           | Some (File b) \<Rightarrow> Some NotADirectoryError
           | Some Dir \<Rightarrow> None)"

definition os_mkdir :: "'t env \<Rightarrow> fsys \<Rightarrow> string \<Rightarrow> exn + fsys" where
  "os_mkdir env f p =
     (if f p \<noteq> None then Inl FileExistsError
      else case parent_check f p of
             Some e \<Rightarrow> Inl e
           | None \<Rightarrow>
               (case mkdir_fault env p of
                  Some e \<Rightarrow> Inl e
                | None \<Rightarrow> Inr (f(p \<mapsto> Dir))))"

text \<open>
  \<open>shutil.move(src, dst)\<close> for the sources \<open>main\<close> hands to it. A destination that is a
  directory receives the source under its base name, unless that name is taken. The move
  itself is \<open>os.rename\<close>, which replaces a file at the destination; where it fails the
  copy that \<open>shutil\<close> falls back to fails the same way. A directory is moved as one node:
  \<open>main\<close> reaches the call only with a path that \<open>Image.open\<close> has read as a file.
\<close>

definition shutil_move :: "'t env \<Rightarrow> fsys \<Rightarrow> string \<Rightarrow> string \<Rightarrow> exn + fsys" where
  "shutil_move env f src dst =
     (if isdir f dst \<and> src = dst then Inr f
      else if isdir f dst \<and> f (path_join dst (basename (rstrip_sep src))) \<noteq> None
        then Inl ShutilError
      else
        let real_dst = (if isdir f dst then path_join dst (basename (rstrip_sep src)) else dst)
        in case f src of
             None \<Rightarrow> Inl FileNotFoundError
           | Some n \<Rightarrow>
               (case parent_check f real_dst of
                  Some e \<Rightarrow> Inl e
                | None \<Rightarrow>
                    (case move_fault env src real_dst of
                       Some e \<Rightarrow> Inl e
                     | None \<Rightarrow> Inr ((f(src := None))(real_dst \<mapsto> n)))))"

text \<open>\<open>Image.open(name).convert("RGB")\<close> and the transformation, lines 207--209.\<close>

definition image_open :: "'t env \<Rightarrow> fsys \<Rightarrow> string \<Rightarrow> exn + 't" where
  "image_open env f p =
     (case f p of
        None \<Rightarrow> Inl FileNotFoundError
      | Some Dir \<Rightarrow> Inl IsADirectoryError
      | Some (File b) \<Rightarrow> preprocess env b)"

subsection \<open>Python list primitives\<close>

text \<open>\<open>max(xs)\<close>: the first of the greatest elements; ValueError on the empty list.\<close>

definition py_max :: "real list \<Rightarrow> exn + real" where
  "py_max xs =
     (case xs of
        [] \<Rightarrow> Inl ValueError
      | x # ys \<Rightarrow> Inr (foldl (\<lambda>m y. if m < y then y else m) x ys))"

text \<open>\<open>xs.index(v)\<close>: the first index holding \<open>v\<close>; ValueError when there is none.\<close>

fun index_from :: "real list \<Rightarrow> real \<Rightarrow> nat \<Rightarrow> exn + nat" where
  "index_from [] v k = Inl ValueError"
| "index_from (x # xs) v k = (if x = v then Inr k else index_from xs v (Suc k))"

definition py_index :: "real list \<Rightarrow> real \<Rightarrow> exn + nat" where
  "py_index xs v = index_from xs v 0"

text \<open>\<open>xs[i]\<close> for a natural index: IndexError out of range.\<close>

definition py_get :: "'a list \<Rightarrow> nat \<Rightarrow> exn + 'a" where
  "py_get xs i = (if i < length xs then Inr (xs ! i) else Inl IndexError)"

subsection \<open>The body of the loop over the entries (lines 196--232)\<close>

text \<open>Lines 197--202: the loop over the labels. \<open>continue\<close> goes to the next label.\<close>

fun ensure_categories ::
  "'t env \<Rightarrow> string \<Rightarrow> string \<Rightarrow> string list \<Rightarrow> fsys \<Rightarrow> (exn \<times> fsys) + fsys" where
  "ensure_categories env imgpath infile [] f = Inr f"
| "ensure_categories env imgpath infile (l # ls) f =
     (if infile = l then ensure_categories env imgpath infile ls f
      else
        let fpath = path_join imgpath l in
        if \<not> isdir f fpath then
          (case os_mkdir env f fpath of
             Inl e \<Rightarrow> Inl (e, f)
           | Inr f' \<Rightarrow> ensure_categories env imgpath infile ls f')
        else ensure_categories env imgpath infile ls f)"

text \<open>Lines 203--205: the loop over the extensions. \<open>continue\<close> goes to the next
  extension, and the body has no other statement.\<close>

fun img_type_loop :: "string \<Rightarrow> string list \<Rightarrow> state \<Rightarrow> state" where
  "img_type_loop infile [] s = s"
| "img_type_loop infile (c # cs) s =
     (if str_find infile c = - 1
      then img_type_loop infile cs (s\<lparr>check := Some c\<rparr>)
      else img_type_loop infile cs (s\<lparr>check := Some c\<rparr>))"

text \<open>Lines 197--212, the \<open>try\<close> block: the exception raised or the tensor \<open>fc_out\<close>,
  and the state reached.\<close>

definition try_body ::
  "'t env \<Rightarrow> string \<Rightarrow> string \<Rightarrow> state \<Rightarrow> (exn + real list list) \<times> state" where
  "try_body env imgpath infile s =
     (case ensure_categories env imgpath infile labels (fs s) of
        Inl (e, f1) \<Rightarrow> (Inl e, s\<lparr>fs := f1\<rparr>)
      | Inr f1 \<Rightarrow>
          (let s1 = img_type_loop infile img_type (s\<lparr>fs := f1\<rparr>);
               s2 = s1\<lparr>name := Some (path_join imgpath infile)\<rparr>
           in case image_open env (fs s2) (path_join imgpath infile) of
                Inl e \<Rightarrow> (Inl e, s2)
              | Inr img_tensor \<Rightarrow>
                  (case predict env img_tensor of
                     Inl e \<Rightarrow> (Inl e, s2)
                   | Inr fc_out \<Rightarrow> (Inr fc_out, s2))))"

text \<open>Lines 219--222: \<open>transfer_list\<close>. Every row of \<open>fc_out\<close> appends the first
  \<open>len(labelsnum)\<close> entries of row 0.\<close>

fun inner_loop :: "real list list \<Rightarrow> nat list \<Rightarrow> real list \<Rightarrow> exn + real list" where
  "inner_loop fc_out [] tlist = Inr tlist"
| "inner_loop fc_out (x # xs) tlist =
     (case py_get fc_out 0 of
        Inl e \<Rightarrow> Inl e
      | Inr row \<Rightarrow>
          (case py_get row x of
             Inl e \<Rightarrow> Inl e
           | Inr v \<Rightarrow> inner_loop fc_out xs (tlist @ [v])))"

fun outer_loop :: "real list list \<Rightarrow> real list list \<Rightarrow> real list \<Rightarrow> exn + real list" where
  "outer_loop fc_out [] tlist = Inr tlist"
| "outer_loop fc_out (out # outs) tlist =
     (case inner_loop fc_out [0..<length labelsnum] tlist of
        Inl e \<Rightarrow> Inl e
      | Inr tlist' \<Rightarrow> outer_loop fc_out outs tlist')"

definition transfer_list :: "real list list \<Rightarrow> exn + real list" where
  "transfer_list fc_out = outer_loop fc_out fc_out []"

text \<open>Lines 223--224: the decision.\<close>

definition decide :: "real list \<Rightarrow> exn + (nat \<times> real)" where
  "decide tlist =
     (case py_max tlist of
        Inl e \<Rightarrow> Inl e
      | Inr best_out \<Rightarrow>
          (case py_index tlist best_out of
             Inl e \<Rightarrow> Inl e
           | Inr i \<Rightarrow> Inr (i, best_out)))"

text \<open>Lines 219--232, the \<open>else\<close> block. No handler covers it.\<close>

definition else_body ::
  "'t env \<Rightarrow> string \<Rightarrow> string \<Rightarrow> real list list \<Rightarrow> state \<Rightarrow> outcome" where
  "else_body env imgpath infile fc_out s =
     (case transfer_list fc_out of
        Inl e \<Rightarrow> Inl (e, s)
      | Inr tlist \<Rightarrow>
     (case decide tlist of
        Inl e \<Rightarrow> Inl (e, s)
      | Inr (i, best_out) \<Rightarrow>
     (case py_get labels i of
        Inl e \<Rightarrow> Inl (e, s)
      | Inr label \<Rightarrow>
     (case py_get labelsnum i of
        Inl e \<Rightarrow> Inl (e, s)
      | Inr labelnum \<Rightarrow>
          (let s1 = s\<lparr>rate := rate s @ [best_out],
                      imgname := imgname s @ [infile],
                      imglabel := imglabel s @ [label],
                      imglabelnum := imglabelnum s @ [labelnum]\<rparr>;
               newpath = path_join (path_join imgpath label) infile
           in case name s1 of
                None \<Rightarrow> Inl (UnboundLocalError, s1)
              | Some nm \<Rightarrow>
                  (case shutil_move env (fs s1) nm newpath of
                     Inl e \<Rightarrow> Inl (e, s1)
                   | Inr f' \<Rightarrow> Inr (s1\<lparr>fs := f'\<rparr>)))))))"

text \<open>Lines 196--232: one iteration. The handler (lines 214--216) reads \<open>name\<close>.\<close>

definition iteration :: "'t env \<Rightarrow> string \<Rightarrow> state \<Rightarrow> string \<Rightarrow> outcome" where
  "iteration env imgpath s infile =
     (case try_body env imgpath infile s of
        (Inl e, s1) \<Rightarrow>
          (case name s1 of
             None \<Rightarrow> Inl (UnboundLocalError, s1)
           | Some n \<Rightarrow> Inr (s1\<lparr>error := error s1 @ [n]\<rparr>))
      | (Inr fc_out, s1) \<Rightarrow> else_body env imgpath infile fc_out s1)"

fun entries_loop :: "'t env \<Rightarrow> string \<Rightarrow> string list \<Rightarrow> state \<Rightarrow> outcome" where
  "entries_loop env imgpath [] s = Inr s"
| "entries_loop env imgpath (infile # rest) s =
     (case iteration env imgpath s infile of
        Inl x \<Rightarrow> Inl x
      | Inr s' \<Rightarrow> entries_loop env imgpath rest s')"

subsection \<open>The reports (lines 233--246) and \<open>main\<close>\<close>

text \<open>\<open>pd.DataFrame\<close> of a dictionary of columns raises ValueError when the columns
  differ in length.\<close>

definition DataFrame4 ::
  "string list \<Rightarrow> string list \<Rightarrow> string list \<Rightarrow> real list \<Rightarrow> exn + table" where
  "DataFrame4 a b c d =
     (if length a = length b \<and> length b = length c \<and> length c = length d
      then Inr (ResultTable a b c d) else Inl ValueError)"

text \<open>\<open>df.to_csv(path, ...)\<close>: the file is written unless the call raises.\<close>

definition to_csv :: "'t env \<Rightarrow> string \<Rightarrow> table \<Rightarrow> state \<Rightarrow> outcome" where
  "to_csv env path df s =
     (case to_csv_fault env path of
        Some e \<Rightarrow> Inl (e, s)
      | None \<Rightarrow> Inr (s\<lparr>written := written s @ [(path, df)]\<rparr>))"

definition flush :: "'t env \<Rightarrow> string \<Rightarrow> string \<Rightarrow> state \<Rightarrow> outcome" where
  "flush env csv_path error_csv_path s =
     (case DataFrame4 (imgname s) (imglabel s) (imglabelnum s) (rate s) of
        Inl e \<Rightarrow> Inl (e, s)
      | Inr df \<Rightarrow>
          (case to_csv env csv_path df s of
             Inl x \<Rightarrow> Inl x
           | Inr s1 \<Rightarrow>
               if error s1 \<noteq> []
               then (case to_csv env error_csv_path (ErrorTable (error s1)) s1 of
                       Inl x \<Rightarrow> Inl x
                     | Inr s2 \<Rightarrow> Inr (s2\<lparr>error := []\<rparr>))
               else Inr s1))"

text \<open>The entry of \<open>main\<close> (lines 184--190): empty ledgers, \<open>name\<close> unbound.\<close>

definition init_locals :: "state \<Rightarrow> state" where
  "init_locals w =
     w\<lparr>imgname := [], imglabel := [], imglabelnum := [], rate := [], error := [],
       check := None, name := None\<rparr>"

definition main_loop :: "'t env \<Rightarrow> string \<Rightarrow> state \<Rightarrow> outcome" where
  "main_loop env imgpath w =
     (case listdir env imgpath of
        Inl e \<Rightarrow> Inl (e, init_locals w)
      | Inr imagepath_list \<Rightarrow> entries_loop env imgpath (sort imagepath_list) (init_locals w))"

definition main :: "'t env \<Rightarrow> string \<Rightarrow> string \<Rightarrow> string \<Rightarrow> state \<Rightarrow> outcome" where
  "main env imgpath csv_path error_csv_path w =
     (case main_loop env imgpath w of
        Inl x \<Rightarrow> Inl x
      | Inr s \<Rightarrow> flush env csv_path error_csv_path s)"

subsection \<open>The loop over the sub-folders (lines 251--266)\<close>

fun folders_loop :: "'t env \<Rightarrow> string \<Rightarrow> string \<Rightarrow> string list \<Rightarrow> state \<Rightarrow> outcome" where
  "folders_loop env rootfolder output [] w = Inr w"
| "folders_loop env rootfolder output (f # rest) w =
     (let imgpath = path_join rootfolder f;
          csv_path = path_join output (f @ ''-Litton-7type-visual-landscape-predict_result.csv'');
          error_csv_path = path_join output (f @ ''-predict_error.csv'')
      in case main env imgpath csv_path error_csv_path w of
           Inl x \<Rightarrow> Inl x
         | Inr w' \<Rightarrow> folders_loop env rootfolder output rest w')"

definition run :: "'t env \<Rightarrow> string \<Rightarrow> string \<Rightarrow> state \<Rightarrow> outcome" where
  "run env rootfolder output w =
     (case listdir env rootfolder of
        Inl e \<Rightarrow> Inl (e, w)
      | Inr folderpath_list \<Rightarrow> folders_loop env rootfolder output (sort folderpath_list) w)"

subsection \<open>Reading outcomes\<close>

text \<open>The state an outcome ends in, the exception it raised, and the file system in which
  the loop over the labels ended.\<close>

definition final :: "outcome \<Rightarrow> state" where
  "final r = (case r of Inl (e, s) \<Rightarrow> s | Inr s \<Rightarrow> s)"

definition raised :: "outcome \<Rightarrow> exn option" where
  "raised r = (case r of Inl (e, s) \<Rightarrow> Some e | Inr s \<Rightarrow> None)"

definition reached :: "(exn \<times> fsys) + fsys \<Rightarrow> fsys" where
  "reached r = (case r of Inl (e, f) \<Rightarrow> f | Inr f \<Rightarrow> f)"

text \<open>\<open>keeps_dirs f f'\<close>: every directory of \<open>f\<close> is a directory of \<open>f'\<close>, at the same
  path. \<open>ledgers_aligned\<close>: the four columns of the result table have one length.\<close>

definition keeps_dirs :: "fsys \<Rightarrow> fsys \<Rightarrow> bool" where
  "keeps_dirs f f' = (\<forall>p. f p = Some Dir \<longrightarrow> f' p = Some Dir)"

definition ledgers_aligned :: "state \<Rightarrow> bool" where
  "ledgers_aligned s =
     (length (imgname s) = length (imglabel s) \<and> length (imglabel s) = length (imglabelnum s)
      \<and> length (imglabelnum s) = length (rate s))"

text \<open>
  The eligibility of the specification (its sections 3 and 4.5), written after its words:
  an entry is eligible iff it is not the name of a category folder and its name ends in
  one of the extensions of \<open>img_type\<close>. The script has no such predicate; the definition
  is used only to count the eligible entries of an example folder.
\<close>

definition spec_eligible :: "string \<Rightarrow> bool" where
  "spec_eligible infile = (infile \<notin> set labels \<and> list_ex (\<lambda>e. suffix e infile) img_type)"

subsection \<open>Example folders\<close>

text \<open>
  An environment in which no \<open>os.mkdir\<close> and no \<open>shutil.move\<close> fails for a reason
  outside the file system, every CSV file can be written, the files with the bytes \<open>''A''\<close> and \<open>''C''\<close> are images and
  every other file is not. The network gives the image \<open>''A''\<close> the probability 0.91 of
  category 2 and the image \<open>''C''\<close> the probability 0.60 of category 0 (the two images of
  the scenario of section 8 of the specification). \<open>dirs\<close> lists the directories.
\<close>

definition demo_preprocess :: "string \<Rightarrow> exn + string" where
  "demo_preprocess b = (if b = ''A'' \<or> b = ''C'' then Inr b else Inl UnidentifiedImageError)"

definition demo_predict :: "string \<Rightarrow> exn + real list list" where
  "demo_predict t =
     (if t = ''A'' then Inr [[15/1000, 15/1000, 91/100, 15/1000, 15/1000, 15/1000, 15/1000]]
      else if t = ''C'' then Inr [[60/100, 10/100, 10/100, 5/100, 5/100, 5/100, 5/100]]
      else Inl RuntimeError)"

definition demo_env :: "(string \<times> string list) list \<Rightarrow> string env" where
  "demo_env dirs =
     \<lparr>listdir = (\<lambda>p. case map_of dirs p of Some l \<Rightarrow> Inr l | None \<Rightarrow> Inl NotADirectoryError),
      mkdir_fault = (\<lambda>p. None),
      preprocess = demo_preprocess,
      predict = demo_predict,
      move_fault = (\<lambda>src dst. None),
      to_csv_fault = (\<lambda>p. None)\<rparr>"

definition demo_state :: "(string \<times> node) list \<Rightarrow> state" where
  "demo_state nodes =
     \<lparr>fs = map_of nodes, written = [], imgname = [], imglabel = [], imglabelnum = [],
      rate = [], error = [], check = None, name = None\<rparr>"

text \<open>The folder of the scenario of section 8: two images and one corrupt file.\<close>

definition spec_env :: "string env" where
  "spec_env = demo_env [(''d'', [''c.bmp'', ''a.jpg'', ''b.png''])]"

definition spec_state :: state where
  "spec_state = demo_state
     [(''d'', Dir), (''d/a.jpg'', File ''A''), (''d/b.png'', File ''corrupt''),
      (''d/c.bmp'', File ''C'')]"

text \<open>A folder processed before: category folder 0 exists, and there is a TIFF image.\<close>

definition rerun_env :: "string env" where
  "rerun_env = demo_env [(''d'', [''photo.tif'', ''0.Panoramic-landscape''])]"

definition rerun_state :: state where
  "rerun_state = demo_state
     [(''d'', Dir), (''d/0.Panoramic-landscape'', Dir), (''d/photo.tif'', File ''A'')]"

text \<open>A folder with one image and one text file.\<close>

definition notes_env :: "string env" where
  "notes_env = demo_env [(''d'', [''notes.txt'', ''a.jpg''])]"

definition notes_state :: state where
  "notes_state = demo_state
     [(''d'', Dir), (''d/a.jpg'', File ''A''), (''d/notes.txt'', File ''hello'')]"

text \<open>A folder with two images, where moving \<open>a.jpg\<close> is refused.\<close>

definition locked_env :: "string env" where
  "locked_env = (demo_env [(''d'', [''a.jpg'', ''c.bmp''])])
     \<lparr>move_fault := (\<lambda>src dst. if src = ''d/a.jpg'' then Some PermissionError else None)\<rparr>"

definition locked_state :: state where
  "locked_state = demo_state
     [(''d'', Dir), (''d/a.jpg'', File ''A''), (''d/c.bmp'', File ''C'')]"

text \<open>A folder with an image and a regular file that has the name of category 0.\<close>

definition clash_env :: "string env" where
  "clash_env = demo_env [(''d'', [''a.jpg'', ''0.Panoramic-landscape''])]"

definition clash_state :: state where
  "clash_state = demo_state
     [(''d'', Dir), (''d/0.Panoramic-landscape'', File ''hello''), (''d/a.jpg'', File ''A'')]"

text \<open>An empty folder.\<close>

definition empty_env :: "string env" where
  "empty_env = demo_env [(''d'', [])]"

definition empty_state :: state where
  "empty_state = demo_state [(''d'', Dir)]"

text \<open>The folder with the regular file, with a second image.\<close>

definition clash3_env :: "string env" where
  "clash3_env = demo_env [(''d'', [''b.jpg'', ''a.jpg'', ''0.Panoramic-landscape''])]"

definition clash3_state :: state where
  "clash3_state = demo_state
     [(''d'', Dir), (''d/0.Panoramic-landscape'', File ''hello''), (''d/a.jpg'', File ''A''),
      (''d/b.jpg'', File ''A'')]"

text \<open>An empty folder, where no CSV file can be written.\<close>

definition sealed_env :: "string env" where
  "sealed_env = (demo_env [(''d'', [])])\<lparr>to_csv_fault := (\<lambda>p. Some PermissionError)\<rparr>"

text \<open>A root folder with two sub-folders in which no directory can be created.\<close>

definition readonly_env :: "string env" where
  "readonly_env =
     (demo_env [(''root'', [''d2'', ''d1'']), (''root/d1'', [''a.jpg'']),
                (''root/d2'', [''c.bmp''])])
     \<lparr>mkdir_fault := (\<lambda>p. Some PermissionError)\<rparr>"

definition readonly_state :: state where
  "readonly_state = demo_state
     [(''root'', Dir), (''root/d1'', Dir), (''root/d1/a.jpg'', File ''A''),
      (''root/d2'', Dir), (''root/d2/c.bmp'', File ''C'')]"

section \<open>Properties of the primitives\<close>

subsection \<open>Constants\<close>

lemma length_labels: "length labels = 7"
  by (simp add: labels_def)

lemma labelsnum_eq: "labelsnum = [''0'', ''1'', ''2'', ''3'', ''4'', ''5'', ''6'']"
  by code_simp

lemma length_labelsnum: "length labelsnum = 7"
  by (simp add: labelsnum_def length_labels)

lemma img_type_loop_eq:
  "img_type_loop infile cs s = (if cs = [] then s else s\<lparr>check := Some (last cs)\<rparr>)"
  by (induction cs arbitrary: s) auto

subsection \<open>\<open>max\<close>, \<open>index\<close> and the decision\<close>

lemma step_is_max: "(\<lambda>m y::real. if m < y then y else m) = max"
  by (auto simp: fun_eq_iff max_def)

lemma py_max_Max: "xs \<noteq> [] \<Longrightarrow> py_max xs = Inr (Max (set xs))"
proof (cases xs)
  case Nil
  assume "xs \<noteq> []"
  with Nil show ?thesis by simp
next
  case (Cons x ys)
  have a: "py_max xs = Inr (foldl max x ys)"
    using Cons by (simp add: py_max_def step_is_max)
  have b: "foldl max x ys = fold max ys x"
    by (simp add: foldl_conv_fold max.commute)
  have c: "Max (set xs) = fold max ys x"
    unfolding Cons by (rule Max.set_eq_fold)
  show ?thesis by (simp only: a b c)
qed

lemma index_from_Inr:
  "index_from xs v k = Inr i \<Longrightarrow>
     k \<le> i \<and> i - k < length xs \<and> xs ! (i - k) = v \<and> (\<forall>j < i - k. xs ! j \<noteq> v)"
proof (induction xs arbitrary: k)
  case Nil
  then show ?case by simp
next
  case (Cons x xs)
  show ?case
  proof (cases "x = v")
    case True
    with Cons.prems show ?thesis by simp
  next
    case False
    with Cons.prems have r: "index_from xs v (Suc k) = Inr i" by simp
    from Cons.IH [OF r] have a: "Suc k \<le> i" and b: "i - Suc k < length xs"
      and c: "xs ! (i - Suc k) = v" and d: "\<forall>j < i - Suc k. xs ! j \<noteq> v"
      by auto
    from a have e: "i - k = Suc (i - Suc k)" by simp
    have "\<forall>j < i - k. (x # xs) ! j \<noteq> v"
    proof (intro allI impI)
      fix j assume "j < i - k"
      then show "(x # xs) ! j \<noteq> v"
        using False d e by (cases j) auto
    qed
    with a b c e show ?thesis by simp
  qed
qed

lemma index_from_mem: "v \<in> set xs \<Longrightarrow> \<exists>i. index_from xs v k = Inr i"
  by (induction xs arbitrary: k) auto

lemma decide_spec:
  assumes "xs \<noteq> []"
  shows "\<exists>i. decide xs = Inr (i, Max (set xs)) \<and> i < length xs \<and> xs ! i = Max (set xs)
           \<and> (\<forall>j < i. xs ! j < Max (set xs))"
proof -
  have m: "Max (set xs) \<in> set xs"
    using assms by (simp add: Max_in)
  then obtain i where i: "index_from xs (Max (set xs)) 0 = Inr i"
    using index_from_mem by blast
  from index_from_Inr [OF i] have b: "i < length xs" and c: "xs ! i = Max (set xs)"
    and d: "\<forall>j < i. xs ! j \<noteq> Max (set xs)"
    by auto
  have "\<forall>j < i. xs ! j < Max (set xs)"
  proof (intro allI impI)
    fix j assume j: "j < i"
    with b have "xs ! j \<in> set xs" by simp
    then have "xs ! j \<le> Max (set xs)" by simp
    with d j show "xs ! j < Max (set xs)" by (simp add: less_le)
  qed
  with i b c show ?thesis
    using assms by (simp add: decide_def py_max_Max py_index_def)
qed

subsection \<open>\<open>transfer_list\<close>\<close>

lemma inner_loop_map:
  "fc_out \<noteq> [] \<Longrightarrow> \<forall>x \<in> set xs. x < length (fc_out ! 0) \<Longrightarrow>
     inner_loop fc_out xs acc = Inr (acc @ map ((!) (fc_out ! 0)) xs)"
  by (induction xs arbitrary: acc) (auto simp: py_get_def)

lemma transfer_list_single:
  assumes "length p = length labels"
  shows "transfer_list [p] = Inr p"
proof -
  have n: "length labelsnum = length p"
    using assms by (simp add: length_labelsnum length_labels)
  have "inner_loop [p] [0..<length p] [] = Inr ([] @ map ((!) ([p] ! 0)) [0..<length p])"
    by (rule inner_loop_map) simp_all
  then have "inner_loop [p] [0..<length p] [] = Inr p"
    by (simp add: map_nth)
  then show ?thesis
    by (simp add: transfer_list_def n)
qed

subsection \<open>Directories are only added\<close>

lemma keeps_dirs_refl: "keeps_dirs f f"
  by (simp add: keeps_dirs_def)

lemma keeps_dirs_trans: "keeps_dirs f g \<Longrightarrow> keeps_dirs g h \<Longrightarrow> keeps_dirs f h"
  by (simp add: keeps_dirs_def)

lemma os_mkdir_Inr: "os_mkdir env f p = Inr f' \<Longrightarrow> f p = None \<and> f' = f(p \<mapsto> Dir)"
  by (auto simp: os_mkdir_def split: if_splits option.splits)

lemma os_mkdir_keeps: "os_mkdir env f p = Inr f' \<Longrightarrow> keeps_dirs f f'"
  by (drule os_mkdir_Inr) (auto simp: keeps_dirs_def)

lemma ensure_keeps_Inr:
  "ensure_categories env ip x ls f = Inr f' \<Longrightarrow> keeps_dirs f f'"
proof (induction ls arbitrary: f)
  case Nil
  then show ?case by (simp add: keeps_dirs_refl)
next
  case (Cons l ls)
  then show ?case
    by (auto simp: Let_def split: if_splits sum.splits
        dest: os_mkdir_keeps intro: keeps_dirs_trans)
qed

lemma ensure_keeps_Inl:
  "ensure_categories env ip x ls f = Inl (e, f') \<Longrightarrow> keeps_dirs f f'"
proof (induction ls arbitrary: f)
  case Nil
  then show ?case by simp
next
  case (Cons l ls)
  then show ?case
    by (auto simp: Let_def keeps_dirs_refl split: if_splits sum.splits
        dest: os_mkdir_keeps intro: keeps_dirs_trans)
qed

lemma ensure_dirs:
  "ensure_categories env ip x ls f = Inr f' \<Longrightarrow>
     \<forall>l \<in> set ls. l \<noteq> x \<longrightarrow> isdir f' (path_join ip l)"
proof (induction ls arbitrary: f)
  case Nil
  then show ?case by simp
next
  case (Cons l ls)
  show ?case
  proof (cases "x = l")
    case True
    with Cons show ?thesis by auto
  next
    case False
    show ?thesis
    proof (cases "isdir f (path_join ip l)")
      case True
      with False Cons.prems have r: "ensure_categories env ip x ls f = Inr f'" by simp
      from ensure_keeps_Inr [OF r] True have "isdir f' (path_join ip l)"
        by (simp add: keeps_dirs_def isdir_def)
      with Cons.IH [OF r] show ?thesis by simp
    next
      case nd: False
      with False Cons.prems obtain g where g: "os_mkdir env f (path_join ip l) = Inr g"
        and r: "ensure_categories env ip x ls g = Inr f'"
        by (auto split: sum.splits)
      from os_mkdir_Inr [OF g] have "isdir g (path_join ip l)" by (simp add: isdir_def)
      with ensure_keeps_Inr [OF r] have "isdir f' (path_join ip l)"
        by (simp add: keeps_dirs_def isdir_def)
      with Cons.IH [OF r] show ?thesis by simp
    qed
  qed
qed

lemma ensure_noop:
  "\<forall>l \<in> set ls. l \<noteq> x \<longrightarrow> isdir f (path_join ip l) \<Longrightarrow>
     ensure_categories env ip x ls f = Inr f"
  by (induction ls) auto

lemma ensure_idem:
  "ensure_categories env ip x ls f = Inr f' \<Longrightarrow> ensure_categories env ip x ls f' = Inr f'"
  by (rule ensure_noop) (rule ensure_dirs)

lemma shutil_move_keeps:
  "shutil_move env f src dst = Inr f' \<Longrightarrow> f src = Some (File b) \<Longrightarrow> keeps_dirs f f'"
  by (auto simp: shutil_move_def keeps_dirs_def isdir_def Let_def
      split: if_splits option.splits)

subsection \<open>The \<open>try\<close> block\<close>

text \<open>The loop over the extensions (lines 203--205) only assigns \<open>check\<close>.\<close>

lemma img_type_loop_img_type:
  "img_type_loop infile img_type s = s\<lparr>check := Some ''.png''\<rparr>"
  by (simp add: img_type_loop_eq img_type_def)

lemma try_body_creation_fails:
  "ensure_categories env ip x labels (fs s) = Inl (e, f1) \<Longrightarrow>
     try_body env ip x s = (Inl e, s\<lparr>fs := f1\<rparr>)"
  by (simp add: try_body_def)

lemma try_body_state:
  "ensure_categories env ip x labels (fs s) = Inr f1 \<Longrightarrow>
     snd (try_body env ip x s) =
       s\<lparr>fs := f1, check := Some ''.png'', name := Some (path_join ip x)\<rparr>"
  by (simp add: try_body_def img_type_loop_img_type Let_def
      split: sum.splits)

lemma try_body_Inr:
  assumes "try_body env ip x s = (Inr fc_out, s1)"
  shows "\<exists>f1 b. ensure_categories env ip x labels (fs s) = Inr f1
           \<and> s1 = s\<lparr>fs := f1, check := Some ''.png'', name := Some (path_join ip x)\<rparr>
           \<and> f1 (path_join ip x) = Some (File b)"
proof (cases "ensure_categories env ip x labels (fs s)")
  case (Inl a)
  with assms show ?thesis
    by (cases a) (simp add: try_body_def)
next
  case (Inr f1)
  from try_body_state [OF Inr] assms
  have s1: "s1 = s\<lparr>fs := f1, check := Some ''.png'', name := Some (path_join ip x)\<rparr>"
    by simp
  from assms Inr have "\<exists>t. image_open env f1 (path_join ip x) = Inr t"
    by (auto simp: try_body_def img_type_loop_img_type Let_def split: sum.splits)
  then have "\<exists>b. f1 (path_join ip x) = Some (File b)"
    by (auto simp: image_open_def split: option.splits node.splits)
  with Inr s1 show ?thesis by blast
qed

text \<open>After the label loop the block raises what the image stage or the network raises.\<close>

lemma try_body_fst:
  "ensure_categories env ip x labels (fs s) = Inr f1 \<Longrightarrow>
     fst (try_body env ip x s) =
       (case image_open env f1 (path_join ip x) of Inl e \<Rightarrow> Inl e | Inr t \<Rightarrow> predict env t)"
  by (simp add: try_body_def img_type_loop_img_type Let_def split: sum.splits)

lemma try_body_keeps: "keeps_dirs (fs s) (fs (snd (try_body env ip x s)))"
proof (cases "ensure_categories env ip x labels (fs s)")
  case (Inl a)
  obtain e f1 where a: "a = (e, f1)" by (cases a)
  with Inl show ?thesis
    by (simp add: try_body_creation_fails ensure_keeps_Inl)
next
  case (Inr f1)
  then show ?thesis
    by (simp add: try_body_state ensure_keeps_Inr)
qed

subsection \<open>One iteration\<close>

lemma iteration_creation_fails:
  "ensure_categories env ip x labels (fs s) = Inl (e, f1) \<Longrightarrow>
     iteration env ip s x =
       (case name s of
          None \<Rightarrow> Inl (UnboundLocalError, s\<lparr>fs := f1\<rparr>)
        | Some n \<Rightarrow> Inr (s\<lparr>fs := f1, error := error s @ [n]\<rparr>))"
  by (simp add: iteration_def try_body_creation_fails split: option.splits)

lemma iteration_stage_fails:
  assumes "ensure_categories env ip x labels (fs s) = Inr f1"
    and "fst (try_body env ip x s) = Inl e"
  shows "iteration env ip s x =
           Inr (s\<lparr>fs := f1, check := Some ''.png'', name := Some (path_join ip x),
                  error := error s @ [path_join ip x]\<rparr>)"
proof -
  have "try_body env ip x s =
          (Inl e, s\<lparr>fs := f1, check := Some ''.png'', name := Some (path_join ip x)\<rparr>)"
    using assms(2) try_body_state [OF assms(1)] by (simp add: prod_eq_iff)
  then show ?thesis by (simp add: iteration_def)
qed

lemma else_body_Inr:
  assumes "else_body env ip x fc_out s = Inr s'"
  shows "\<exists>tlist i best_out nm f'.
           transfer_list fc_out = Inr tlist \<and> decide tlist = Inr (i, best_out)
           \<and> i < length labels \<and> i < length labelsnum
           \<and> name s = Some nm
           \<and> shutil_move env (fs s) nm (path_join (path_join ip (labels ! i)) x) = Inr f'
           \<and> s' = s\<lparr>fs := f', imgname := imgname s @ [x], imglabel := imglabel s @ [labels ! i],
                     imglabelnum := imglabelnum s @ [labelsnum ! i],
                     rate := rate s @ [best_out]\<rparr>"
  using assms
  by (auto simp: else_body_def py_get_def Let_def
      split: sum.splits prod.splits option.splits if_splits)

lemma else_body_final:
  "error (final (else_body env ip x fc_out s)) = error s"
  "written (final (else_body env ip x fc_out s)) = written s"
  "name (final (else_body env ip x fc_out s)) = name s"
  by (auto simp: else_body_def final_def py_get_def Let_def
      split: sum.splits prod.splits option.splits if_splits)

lemma else_body_fs:
  "fs (final (else_body env ip x fc_out s)) = fs s \<or>
   (\<exists>nm dst. name s = Some nm
      \<and> shutil_move env (fs s) nm dst = Inr (fs (final (else_body env ip x fc_out s))))"
  by (auto simp: else_body_def final_def py_get_def Let_def
      split: sum.splits prod.splits option.splits if_splits)

lemma iteration_keeps: "keeps_dirs (fs s) (fs (final (iteration env ip s x)))"
proof (cases "try_body env ip x s")
  case (Pair r s1)
  have k1: "keeps_dirs (fs s) (fs s1)"
    using try_body_keeps [of s env ip x] Pair by simp
  show ?thesis
  proof (cases r)
    case (Inl e)
    with Pair have "fs (final (iteration env ip s x)) = fs s1"
      by (simp add: iteration_def final_def split: option.splits)
    with k1 show ?thesis by simp
  next
    case (Inr fc_out)
    with Pair have it: "iteration env ip s x = else_body env ip x fc_out s1"
      by (simp add: iteration_def)
    from Pair Inr try_body_Inr [of env ip x s fc_out s1]
    obtain b where nm: "name s1 = Some (path_join ip x)"
      and fl: "fs s1 (path_join ip x) = Some (File b)"
      by auto
    from else_body_fs [of env ip x fc_out s1] nm fl
    have "keeps_dirs (fs s1) (fs (final (else_body env ip x fc_out s1)))"
      by (auto simp: keeps_dirs_refl dest: shutil_move_keeps)
    with k1 it show ?thesis by (auto intro: keeps_dirs_trans)
  qed
qed

text \<open>The three ways in which an iteration ends without an exception: the label loop
  raised and \<open>name\<close> was bound; a stage of the \<open>try\<close> block raised; the entry was moved.\<close>

lemma iteration_Inr:
  assumes "iteration env ip s x = Inr s'"
  shows "(\<exists>e f1 n. ensure_categories env ip x labels (fs s) = Inl (e, f1) \<and> name s = Some n
            \<and> s' = s\<lparr>fs := f1, error := error s @ [n]\<rparr>)
       \<or> (\<exists>f1. ensure_categories env ip x labels (fs s) = Inr f1
            \<and> s' = s\<lparr>fs := f1, check := Some ''.png'', name := Some (path_join ip x),
                      error := error s @ [path_join ip x]\<rparr>)
       \<or> (\<exists>f1 f' i best_out. ensure_categories env ip x labels (fs s) = Inr f1
            \<and> i < length labels
            \<and> s' = s\<lparr>check := Some ''.png'', name := Some (path_join ip x), fs := f',
                      imgname := imgname s @ [x], imglabel := imglabel s @ [labels ! i],
                      imglabelnum := imglabelnum s @ [labelsnum ! i],
                      rate := rate s @ [best_out]\<rparr>)"
proof (cases "ensure_categories env ip x labels (fs s)")
  case (Inl a)
  obtain e f1 where a: "a = (e, f1)" by (cases a)
  from assms Inl a show ?thesis
    by (auto simp: iteration_creation_fails split: option.splits)
next
  case (Inr f1)
  show ?thesis
  proof (cases "fst (try_body env ip x s)")
    case (Inl e)
    from iteration_stage_fails [OF Inr Inl] assms Inr show ?thesis by auto
  next
    case fc: (Inr fc_out)
    have tb: "try_body env ip x s =
        (Inr fc_out, s\<lparr>fs := f1, check := Some ''.png'', name := Some (path_join ip x)\<rparr>)"
      using fc try_body_state [OF Inr] by (simp add: prod_eq_iff)
    with assms have "else_body env ip x fc_out
        (s\<lparr>fs := f1, check := Some ''.png'', name := Some (path_join ip x)\<rparr>) = Inr s'"
      by (simp add: iteration_def)
    from else_body_Inr [OF this] Inr show ?thesis by auto
  qed
qed

subsection \<open>Invariants of the loop over the entries\<close>

lemma iteration_invariants:
  assumes "iteration env ip s x = Inr s'"
  shows "written s' = written s"
    and "ledgers_aligned s \<Longrightarrow> ledgers_aligned s'"
    and "length (imgname s') + length (error s') = Suc (length (imgname s) + length (error s))"
    and "set (error s') \<subseteq> set (error s) \<union> set_option (name s) \<union> {path_join ip x}"
    and "set_option (name s') \<subseteq> set_option (name s) \<union> {path_join ip x}"
    and "set (imgname s') \<subseteq> set (imgname s) \<union> {x}"
  using iteration_Inr [OF assms] by (auto simp: ledgers_aligned_def)

lemma entries_loop_invariants:
  "entries_loop env ip xs s = Inr s' \<Longrightarrow>
     written s' = written s
     \<and> (ledgers_aligned s \<longrightarrow> ledgers_aligned s')
     \<and> length (imgname s') + length (error s') = length xs + (length (imgname s) + length (error s))
     \<and> set (error s') \<union> set_option (name s')
          \<subseteq> set (error s) \<union> set_option (name s) \<union> path_join ip ` set xs
     \<and> set (imgname s') \<subseteq> set (imgname s) \<union> set xs"
proof (induction xs arbitrary: s)
  case Nil
  then show ?case by simp
next
  case (Cons x xs)
  from Cons.prems obtain s1 where it: "iteration env ip s x = Inr s1"
    and r: "entries_loop env ip xs s1 = Inr s'"
    by (auto split: sum.splits)
  note a = iteration_invariants [OF it]
  from Cons.IH [OF r] a show ?case
    by (simp add: subset_iff) blast
qed

lemma entries_loop_keeps: "keeps_dirs (fs s) (fs (final (entries_loop env ip xs s)))"
proof (induction xs arbitrary: s)
  case Nil
  then show ?case by (simp add: final_def keeps_dirs_refl)
next
  case (Cons x xs)
  show ?case
  proof (cases "iteration env ip s x")
    case (Inl a)
    then have "final (entries_loop env ip (x # xs) s) = final (iteration env ip s x)"
      by (simp add: final_def)
    then show ?thesis by (simp add: iteration_keeps)
  next
    case (Inr s1)
    then have "entries_loop env ip (x # xs) s = entries_loop env ip xs s1" by simp
    moreover have "keeps_dirs (fs s) (fs s1)"
      using iteration_keeps [of s env ip x] Inr by (simp add: final_def)
    ultimately show ?thesis
      using Cons.IH [of s1] by (auto intro: keeps_dirs_trans)
  qed
qed

subsection \<open>Evaluation of the examples\<close>

lemmas eval_defs =
  demo_preprocess_def demo_predict_def demo_env_def demo_state_def
  main_def main_loop_def init_locals_def flush_def to_csv_def DataFrame4_def iteration_def try_body_def
  else_body_def transfer_list_def decide_def py_max_def py_index_def py_get_def
  labels_def labelsnum_eq img_type_def str_find_def path_join_def rstrip_sep_def
  basename_def dirname_def isdir_def parent_check_def os_mkdir_def shutil_move_def
  image_open_def final_def raised_def Let_def run_def

subsection \<open>\<open>main\<close> and the loop over the sub-folders\<close>

lemma isl_ensure:
  "isl (ensure_categories env ip x ls f) \<Longrightarrow>
     \<exists>e. ensure_categories env ip x ls f = Inl (e, reached (ensure_categories env ip x ls f))"
  by (cases "ensure_categories env ip x ls f") (auto simp: reached_def)

lemma not_isl_ensure:
  "\<not> isl (ensure_categories env ip x ls f) \<Longrightarrow>
     ensure_categories env ip x ls f = Inr (reached (ensure_categories env ip x ls f))"
  by (cases "ensure_categories env ip x ls f") (auto simp: reached_def)

lemma path_join_neq:
  assumes "a \<noteq> []" and "b \<noteq> []" and "hd b \<noteq> CHR ''/''"
  shows "path_join a b \<noteq> b"
proof -
  have "length (a @ ''/'' @ b) \<noteq> length b" by simp
  then have "a @ ''/'' @ b \<noteq> b" by metis
  with assms show ?thesis by (simp add: path_join_def)
qed

lemma flush_outcome:
  assumes "ledgers_aligned s" and "to_csv_fault env c = None"
    and "error s \<noteq> [] \<Longrightarrow> to_csv_fault env e = None"
  shows "raised (flush env c e s) = None \<and> fs (final (flush env c e s)) = fs s \<and>
     written (final (flush env c e s)) =
       written s @ (c, ResultTable (imgname s) (imglabel s) (imglabelnum s) (rate s))
         # (if error s = [] then [] else [(e, ErrorTable (error s))])"
  using assms
  by (simp add: flush_def to_csv_def DataFrame4_def ledgers_aligned_def raised_def final_def)

lemma flush_first_fault:
  "ledgers_aligned s \<Longrightarrow> to_csv_fault env c = Some x \<Longrightarrow> flush env c e s = Inl (x, s)"
  by (simp add: flush_def to_csv_def DataFrame4_def ledgers_aligned_def)

lemma flush_fs: "fs (final (flush env c e s)) = fs s"
  by (simp add: flush_def to_csv_def DataFrame4_def final_def split: option.splits)

lemma init_locals_simps:
  "fs (init_locals w) = fs w" "written (init_locals w) = written w"
  "error (init_locals w) = []" "imgname (init_locals w) = []" "name (init_locals w) = None"
  "ledgers_aligned (init_locals w)"
  by (simp_all add: init_locals_def ledgers_aligned_def)

text \<open>When \<open>main\<close> reaches line 233, every entry of the listing has one row: in the result
  table or in the error table.\<close>

lemma main_loop_invariants:
  assumes "main_loop env ip w = Inr s" and "listdir env ip = Inr lst"
  shows "written s = written w" and "ledgers_aligned s"
    and "length (imgname s) + length (error s) = length lst"
    and "set (error s) \<subseteq> path_join ip ` set lst"
    and "set (imgname s) \<subseteq> set lst"
proof -
  from assms have "entries_loop env ip (sort lst) (init_locals w) = Inr s"
    by (simp add: main_loop_def)
  from entries_loop_invariants [OF this]
  show "written s = written w" and "ledgers_aligned s"
    and "length (imgname s) + length (error s) = length lst"
    and "set (error s) \<subseteq> path_join ip ` set lst"
    and "set (imgname s) \<subseteq> set lst"
    by (auto simp: init_locals_simps)
qed

lemma try_body_written: "written (snd (try_body env ip x s)) = written s"
proof (cases "ensure_categories env ip x labels (fs s)")
  case (Inl a)
  obtain e f1 where "a = (e, f1)" by (cases a)
  with Inl show ?thesis by (simp add: try_body_creation_fails)
next
  case (Inr f1)
  then show ?thesis by (simp add: try_body_state)
qed

lemma iteration_written: "written (final (iteration env ip s x)) = written s"
proof (cases "try_body env ip x s")
  case (Pair r s1)
  then have w1: "written s1 = written s"
    using try_body_written [of env ip x s] by simp
  show ?thesis
  proof (cases r)
    case (Inl e)
    with Pair w1 show ?thesis
      by (simp add: iteration_def final_def split: option.splits)
  next
    case (Inr fc_out)
    with Pair w1 show ?thesis
      by (simp add: iteration_def else_body_final)
  qed
qed

lemma entries_loop_written: "written (final (entries_loop env ip xs s)) = written s"
proof (induction xs arbitrary: s)
  case Nil
  then show ?case by (simp add: final_def)
next
  case (Cons x xs)
  show ?case
  proof (cases "iteration env ip s x")
    case (Inl a)
    then have "final (entries_loop env ip (x # xs) s) = final (iteration env ip s x)"
      by (simp add: final_def)
    then show ?thesis by (simp add: iteration_written)
  next
    case (Inr s1)
    then have "written s1 = written s"
      using iteration_written [of env ip s x] by (simp add: final_def)
    with Inr Cons.IH [of s1] show ?thesis by simp
  qed
qed

lemma main_loop_written: "written (final (main_loop env ip w)) = written w"
  by (cases "listdir env ip")
    (simp_all add: main_loop_def entries_loop_written init_locals_simps, simp add: final_def init_locals_simps)

lemma main_loop_listed:
  "main_loop env ip w = Inr s \<Longrightarrow> \<exists>lst. listdir env ip = Inr lst"
  by (auto simp: main_loop_def split: sum.splits)

lemma main_loop_keeps: "keeps_dirs (fs w) (fs (final (main_loop env ip w)))"
proof (cases "listdir env ip")
  case (Inl e)
  then show ?thesis
    by (simp add: main_loop_def final_def init_locals_simps keeps_dirs_refl)
next
  case (Inr lst)
  then show ?thesis
    using entries_loop_keeps [of "init_locals w" env ip "sort lst"]
    by (simp add: main_loop_def init_locals_simps)
qed

lemma main_keeps: "keeps_dirs (fs w) (fs (final (main env ip c e w)))"
proof (cases "main_loop env ip w")
  case (Inl a)
  then have "final (main env ip c e w) = final (main_loop env ip w)"
    by (simp add: main_def)
  then show ?thesis by (simp add: main_loop_keeps)
next
  case (Inr s)
  then have "fs (final (main env ip c e w)) = fs (final (main_loop env ip w))"
    by (simp add: main_def flush_fs) (simp add: final_def)
  then show ?thesis by (simp add: main_loop_keeps)
qed

lemma folders_loop_keeps:
  "keeps_dirs (fs w) (fs (final (folders_loop env rootfolder output fl w)))"
proof (induction fl arbitrary: w)
  case Nil
  then show ?case by (simp add: final_def keeps_dirs_refl)
next
  case (Cons f fl)
  let ?m = "main env (path_join rootfolder f)
              (path_join output (f @ ''-Litton-7type-visual-landscape-predict_result.csv''))
              (path_join output (f @ ''-predict_error.csv'')) w"
  have k: "keeps_dirs (fs w) (fs (final ?m))" by (rule main_keeps)
  show ?case
  proof (cases ?m)
    case (Inl a)
    then have "final (folders_loop env rootfolder output (f # fl) w) = final ?m"
      by (simp add: Let_def)
    with k show ?thesis by simp
  next
    case (Inr w')
    then have "folders_loop env rootfolder output (f # fl) w
                 = folders_loop env rootfolder output fl w'"
      by (simp add: Let_def)
    moreover from Inr k have "keeps_dirs (fs w) (fs w')" by (simp add: final_def)
    ultimately show ?thesis
      using Cons.IH [of w'] by (auto intro: keeps_dirs_trans)
  qed
qed

lemma run_keeps: "keeps_dirs (fs w) (fs (final (run env rootfolder output w)))"
  by (cases "listdir env rootfolder")
    (simp_all add: run_def folders_loop_keeps, simp add: final_def keeps_dirs_refl)

lemma iteration_creation_fails_reached:
  assumes "isl (ensure_categories env ip x labels (fs s))"
  shows "iteration env ip s x =
       (case name s of
          None \<Rightarrow> Inl (UnboundLocalError, s\<lparr>fs := reached (ensure_categories env ip x labels (fs s))\<rparr>)
        | Some n \<Rightarrow> Inr (s\<lparr>fs := reached (ensure_categories env ip x labels (fs s)),
                         error := error s @ [n]\<rparr>))"
proof -
  from isl_ensure [OF assms] obtain e where
    "ensure_categories env ip x labels (fs s) =
       Inl (e, reached (ensure_categories env ip x labels (fs s)))" ..
  then show ?thesis by (rule iteration_creation_fails)
qed

lemma iteration_stage_fails_reached:
  assumes "\<not> isl (ensure_categories env ip x labels (fs s))"
    and "isl (fst (try_body env ip x s))"
  shows "iteration env ip s x =
           Inr (s\<lparr>fs := reached (ensure_categories env ip x labels (fs s)),
                  check := Some ''.png'', name := Some (path_join ip x),
                  error := error s @ [path_join ip x]\<rparr>)"
proof -
  from assms(2) obtain e where "fst (try_body env ip x s) = Inl e"
    by (cases "fst (try_body env ip x s)") auto
  with not_isl_ensure [OF assms(1)] show ?thesis by (rule iteration_stage_fails)
qed

lemma iteration_binds_name:
  assumes "\<not> isl (ensure_categories env ip x labels (fs s))"
    and "iteration env ip s x = Inr s1"
  shows "name s1 = Some (path_join ip x)"
  using iteration_Inr [OF assms(2)] assms(1) by auto

lemmas fixture_defs =
  spec_env_def spec_state_def rerun_env_def rerun_state_def notes_env_def notes_state_def
  locked_env_def locked_state_def clash_env_def clash_state_def empty_env_def empty_state_def
  readonly_env_def readonly_state_def clash3_env_def clash3_state_def sealed_env_def
  reached_def spec_eligible_def

lemma raised_simps: "raised (Inl (e, s)) = Some e" "raised (Inr s) = None"
  by (simp_all add: raised_def)

lemma final_simps: "final (Inl (e, s)) = s" "final (Inr s) = s"
  by (simp_all add: final_def)

section \<open>The claims\<close>

subsection \<open>C1: which entries are skipped\<close>

text \<open>
  Claim C1: an entry is skipped (it runs through no stage and appears in neither ledger)
  iff it is the name of a category folder or its extension matches no member of the
  allow-list.

  The script skips nothing: the \<open>continue\<close> of line 199 and the one of line 205 end an
  iteration of the inner loop they stand in, never the iteration of the entry. In the folder
  processed before, neither the TIFF image nor the category folder is eligible; the image is
  classified, recorded in the result table and moved, and the category folder is recorded
  in the error table.
\<close>

theorem ineligible_entries_are_processed:
  "\<not> spec_eligible ''photo.tif'' \<and> \<not> spec_eligible ''0.Panoramic-landscape''
   \<and> written (final (main rerun_env ''d'' ''out/r.csv'' ''out/e.csv'' rerun_state)) =
       [(''out/r.csv'', ResultTable [''photo.tif''] [''2.Detail-landscape''] [''2''] [91/100]),
        (''out/e.csv'', ErrorTable [''d/0.Panoramic-landscape''])]
   \<and> fs (final (main rerun_env ''d'' ''out/r.csv'' ''out/e.csv'' rerun_state))
        ''d/2.Detail-landscape/photo.tif'' = Some (File ''A'')"
proof -
  have a: "\<not> spec_eligible ''photo.tif''" "\<not> spec_eligible ''0.Panoramic-landscape''"
    by (simp_all add: spec_eligible_def labels_def img_type_def suffix_def)
  have b: "written (final (main rerun_env ''d'' ''out/r.csv'' ''out/e.csv'' rerun_state)) =
       [(''out/r.csv'', ResultTable [''photo.tif''] [''2.Detail-landscape''] [''2''] [91/100]),
        (''out/e.csv'', ErrorTable [''d/0.Panoramic-landscape''])]"
    by (simp add: eval_defs fixture_defs)
  have c: "fs (final (main rerun_env ''d'' ''out/r.csv'' ''out/e.csv'' rerun_state))
        ''d/2.Detail-landscape/photo.tif'' = Some (File ''A'')"
    by (simp add: eval_defs fixture_defs)
  from a b c show ?thesis by blast
qed

subsection \<open>C2: which exceptions the handler catches\<close>

text \<open>
  Claim C2: an exception raised by preprocessing, classification, decision or the file
  move is caught, recorded as a failure, and the loop goes on.

  The decision and the move stand in the \<open>else\<close> block (lines 219--232), which the handler
  does not cover. Where moving \<open>a.jpg\<close> is refused, the exception leaves \<open>main\<close>: nothing
  is recorded in the error ledger, no report is written and \<open>c.bmp\<close> is never processed.
\<close>

theorem move_exception_escapes_main:
  "raised (main locked_env ''d'' ''out/r.csv'' ''out/e.csv'' locked_state) = Some PermissionError
   \<and> error (final (main locked_env ''d'' ''out/r.csv'' ''out/e.csv'' locked_state)) = []
   \<and> written (final (main locked_env ''d'' ''out/r.csv'' ''out/e.csv'' locked_state)) = []
   \<and> fs (final (main locked_env ''d'' ''out/r.csv'' ''out/e.csv'' locked_state)) ''d/c.bmp''
        = Some (File ''C'')"
proof -
  have a: "raised (main locked_env ''d'' ''out/r.csv'' ''out/e.csv'' locked_state)
             = Some PermissionError"
    by (simp add: eval_defs fixture_defs)
  have b: "error (final (main locked_env ''d'' ''out/r.csv'' ''out/e.csv'' locked_state)) = []"
    by (simp add: eval_defs fixture_defs)
  have c: "written (final (main locked_env ''d'' ''out/r.csv'' ''out/e.csv'' locked_state)) = []"
    by (simp add: eval_defs fixture_defs)
  have d: "fs (final (main locked_env ''d'' ''out/r.csv'' ''out/e.csv'' locked_state)) ''d/c.bmp''
        = Some (File ''C'')"
    by (simp add: eval_defs fixture_defs)
  from a b c d show ?thesis by blast
qed

text \<open>
  Claim C2 as amended: when the label loop has ended without an exception and the image
  stage or the network raises, the path of the entry is appended to the error ledger and
  the loop goes on with the next entry; an exception raised in the \<open>else\<close> block ends
  the loop over the entries with that exception.
\<close>

theorem stage_failure_recorded_loop_continues:
  "(\<not> isl (ensure_categories env ip x labels (fs s)) \<and> isl (fst (try_body env ip x s)) \<longrightarrow>
      entries_loop env ip (x # rest) s =
        entries_loop env ip rest
          (s\<lparr>fs := reached (ensure_categories env ip x labels (fs s)),
             check := Some ''.png'', name := Some (path_join ip x),
             error := error s @ [path_join ip x]\<rparr>))
   \<and> (try_body env ip x s = (Inr fc_out, s1) \<and> else_body env ip x fc_out s1 = Inl (e, s2) \<longrightarrow>
      entries_loop env ip (x # rest) s = Inl (e, s2))"
proof (intro conjI impI)
  assume "\<not> isl (ensure_categories env ip x labels (fs s)) \<and> isl (fst (try_body env ip x s))"
  then have "iteration env ip s x =
      Inr (s\<lparr>fs := reached (ensure_categories env ip x labels (fs s)),
             check := Some ''.png'', name := Some (path_join ip x),
             error := error s @ [path_join ip x]\<rparr>)"
    by (simp add: iteration_stage_fails_reached)
  then show "entries_loop env ip (x # rest) s =
        entries_loop env ip rest
          (s\<lparr>fs := reached (ensure_categories env ip x labels (fs s)),
             check := Some ''.png'', name := Some (path_join ip x),
             error := error s @ [path_join ip x]\<rparr>)"
    by simp
next
  assume "try_body env ip x s = (Inr fc_out, s1) \<and> else_body env ip x fc_out s1 = Inl (e, s2)"
  then have "iteration env ip s x = Inl (e, s2)"
    by (simp add: iteration_def)
  then show "entries_loop env ip (x # rest) s = Inl (e, s2)"
    by simp
qed

text \<open>An instance of each half: the corrupt file of the scenario, and the refused move.\<close>

theorem stage_failure_recorded_loop_continues_witness:
  "\<not> isl (ensure_categories spec_env ''d'' ''b.png'' labels (fs spec_state))
   \<and> isl (fst (try_body spec_env ''d'' ''b.png'' spec_state))
   \<and> error (final (entries_loop spec_env ''d'' [''b.png'', ''c.bmp''] spec_state)) = [''d/b.png'']
   \<and> imgname (final (entries_loop spec_env ''d'' [''b.png'', ''c.bmp''] spec_state)) = [''c.bmp'']
   \<and> isl (else_body locked_env ''d'' ''a.jpg''
            (projr (fst (try_body locked_env ''d'' ''a.jpg'' locked_state)))
            (snd (try_body locked_env ''d'' ''a.jpg'' locked_state)))
   \<and> raised (entries_loop locked_env ''d'' [''a.jpg'', ''c.bmp''] locked_state)
        = Some PermissionError"
proof -
  have h1: "\<not> isl (ensure_categories spec_env ''d'' ''b.png'' labels (fs spec_state))"
    by (simp add: eval_defs fixture_defs)
  have h2: "isl (fst (try_body spec_env ''d'' ''b.png'' spec_state))"
    by (simp add: eval_defs fixture_defs)
  have h3: "try_body locked_env ''d'' ''a.jpg'' locked_state =
      (Inr (projr (fst (try_body locked_env ''d'' ''a.jpg'' locked_state))),
       snd (try_body locked_env ''d'' ''a.jpg'' locked_state))"
    by (simp add: eval_defs fixture_defs)
  have h4: "else_body locked_env ''d'' ''a.jpg''
            (projr (fst (try_body locked_env ''d'' ''a.jpg'' locked_state)))
            (snd (try_body locked_env ''d'' ''a.jpg'' locked_state)) =
          Inl (PermissionError, final (else_body locked_env ''d'' ''a.jpg''
            (projr (fst (try_body locked_env ''d'' ''a.jpg'' locked_state)))
            (snd (try_body locked_env ''d'' ''a.jpg'' locked_state))))"
    by (simp add: eval_defs fixture_defs)
  note t = stage_failure_recorded_loop_continues
  from t [where env = spec_env and ip = "''d''" and x = "''b.png''" and s = spec_state
             and rest = "[''c.bmp'']"] h1 h2
  have c1: "entries_loop spec_env ''d'' [''b.png'', ''c.bmp''] spec_state =
        entries_loop spec_env ''d'' [''c.bmp'']
          (spec_state\<lparr>fs := reached (ensure_categories spec_env ''d'' ''b.png'' labels (fs spec_state)),
             check := Some ''.png'', name := Some (path_join ''d'' ''b.png''),
             error := error spec_state @ [path_join ''d'' ''b.png'']\<rparr>)"
    by blast
  have c1a: "error (final (entries_loop spec_env ''d'' [''b.png'', ''c.bmp''] spec_state))
               = [''d/b.png'']"
    unfolding c1 by (simp add: eval_defs fixture_defs)
  have c1b: "imgname (final (entries_loop spec_env ''d'' [''b.png'', ''c.bmp''] spec_state))
               = [''c.bmp'']"
    unfolding c1 by (simp add: eval_defs fixture_defs)
  from t [where env = locked_env and ip = "''d''" and x = "''a.jpg''" and s = locked_state
             and fc_out = "projr (fst (try_body locked_env ''d'' ''a.jpg'' locked_state))"
             and ?s1.0 = "snd (try_body locked_env ''d'' ''a.jpg'' locked_state)"
             and e = PermissionError
             and ?s2.0 = "final (else_body locked_env ''d'' ''a.jpg''
                (projr (fst (try_body locked_env ''d'' ''a.jpg'' locked_state)))
                (snd (try_body locked_env ''d'' ''a.jpg'' locked_state)))"
             and rest = "[''c.bmp'']"] h3 h4
  have "entries_loop locked_env ''d'' [''a.jpg'', ''c.bmp''] locked_state =
          Inl (PermissionError, final (else_body locked_env ''d'' ''a.jpg''
                (projr (fst (try_body locked_env ''d'' ''a.jpg'' locked_state)))
                (snd (try_body locked_env ''d'' ''a.jpg'' locked_state))))"
    by blast
  then have c2: "raised (entries_loop locked_env ''d'' [''a.jpg'', ''c.bmp''] locked_state)
              = Some PermissionError"
    by (simp only: raised_simps)
  have h4': "isl (else_body locked_env ''d'' ''a.jpg''
            (projr (fst (try_body locked_env ''d'' ''a.jpg'' locked_state)))
            (snd (try_body locked_env ''d'' ''a.jpg'' locked_state)))"
    by (subst h4) simp
  from h1 h2 c1a c1b h4' c2 show ?thesis by blast
qed

subsection \<open>C3: failure of the creation of the category folders\<close>

text \<open>
  Claim C3: the category folders are created once per folder before the loop over the
  entries, and a failure of the creation aborts the folder instead of being recorded as the
  failure of an entry.

  The creation stands inside the \<open>try\<close> block of every iteration (lines 197--202). In the
  folder with a regular file named like category 0 the creation fails at \<open>a.jpg\<close>; \<open>main\<close>
  ends without an exception and writes both reports, the failure being one more row of
  the error table. In the empty folder no category folder is created at all.
\<close>

theorem creation_failure_does_not_abort:
  "isl (ensure_categories clash_env ''d'' ''a.jpg'' labels
         (fs (final (iteration clash_env ''d'' (init_locals clash_state)
                       ''0.Panoramic-landscape''))))
   \<and> raised (main clash_env ''d'' ''out/r.csv'' ''out/e.csv'' clash_state) = None
   \<and> written (final (main clash_env ''d'' ''out/r.csv'' ''out/e.csv'' clash_state)) =
       [(''out/r.csv'', ResultTable [] [] [] []),
        (''out/e.csv'', ErrorTable [''d/0.Panoramic-landscape'', ''d/0.Panoramic-landscape''])]
   \<and> fs (final (main empty_env ''d'' ''out/r.csv'' ''out/e.csv'' empty_state))
        ''d/0.Panoramic-landscape'' = None"
proof -
  have a: "isl (ensure_categories clash_env ''d'' ''a.jpg'' labels
         (fs (final (iteration clash_env ''d'' (init_locals clash_state)
                       ''0.Panoramic-landscape''))))"
    by (simp add: eval_defs fixture_defs)
  have b: "raised (main clash_env ''d'' ''out/r.csv'' ''out/e.csv'' clash_state) = None"
    by (simp add: eval_defs fixture_defs)
  have c: "written (final (main clash_env ''d'' ''out/r.csv'' ''out/e.csv'' clash_state)) =
       [(''out/r.csv'', ResultTable [] [] [] []),
        (''out/e.csv'', ErrorTable [''d/0.Panoramic-landscape'', ''d/0.Panoramic-landscape''])]"
    by (simp add: eval_defs fixture_defs)
  have d: "fs (final (main empty_env ''d'' ''out/r.csv'' ''out/e.csv'' empty_state))
        ''d/0.Panoramic-landscape'' = None"
    by (simp add: eval_defs fixture_defs)
  from a b c d show ?thesis by blast
qed

text \<open>
  Claim C3 as amended: the creation of the category folders is attempted for every entry,
  inside its \<open>try\<close> block; when it raises and \<open>name\<close> is bound, the handler appends the
  value of \<open>name\<close> to the error ledger and the loop goes on with the next entry, in the
  file system the creation had reached.
\<close>

theorem creation_failure_recorded_per_entry:
  "isl (ensure_categories env ip x labels (fs s)) \<Longrightarrow> name s = Some n \<Longrightarrow>
     entries_loop env ip (x # rest) s =
       entries_loop env ip rest
         (s\<lparr>fs := reached (ensure_categories env ip x labels (fs s)),
            error := error s @ [n]\<rparr>)"
proof -
  assume raises: "isl (ensure_categories env ip x labels (fs s))" and bound: "name s = Some n"
  from iteration_creation_fails_reached [OF raises] bound
  have "iteration env ip s x =
          Inr (s\<lparr>fs := reached (ensure_categories env ip x labels (fs s)),
                 error := error s @ [n]\<rparr>)"
    by simp
  then show ?thesis by simp
qed

text \<open>An instance: the entry \<open>a.jpg\<close> of the folder with the regular file.\<close>

theorem creation_failure_recorded_per_entry_witness:
  "isl (ensure_categories clash_env ''d'' ''a.jpg'' labels
         (fs (final (iteration clash_env ''d'' (init_locals clash_state)
                       ''0.Panoramic-landscape''))))
   \<and> name (final (iteration clash_env ''d'' (init_locals clash_state)
                   ''0.Panoramic-landscape'')) = Some ''d/0.Panoramic-landscape''
   \<and> error (final (entries_loop clash_env ''d'' [''a.jpg'']
        (final (iteration clash_env ''d'' (init_locals clash_state) ''0.Panoramic-landscape''))))
       = [''d/0.Panoramic-landscape'', ''d/0.Panoramic-landscape'']"
proof -
  let ?s = "final (iteration clash_env ''d'' (init_locals clash_state) ''0.Panoramic-landscape'')"
  have h1: "isl (ensure_categories clash_env ''d'' ''a.jpg'' labels (fs ?s))"
    by (simp add: eval_defs fixture_defs)
  have h2: "name ?s = Some ''d/0.Panoramic-landscape''"
    by (simp add: eval_defs fixture_defs)
  have e: "error ?s = [''d/0.Panoramic-landscape'']"
    by (simp add: eval_defs fixture_defs)
  from creation_failure_recorded_per_entry [OF h1 h2, of "[]"] e
  have "error (final (entries_loop clash_env ''d'' [''a.jpg''] ?s))
          = [''d/0.Panoramic-landscape'', ''d/0.Panoramic-landscape'']"
    by (simp add: final_def)
  with h1 h2 show ?thesis by blast
qed

subsection \<open>C4: the rows of the two reports\<close>

text \<open>
  Claim C4: the two ledgers are disjoint, their union is the set of the eligible entries,
  and the rows of the two reports together are as many as the eligible entries.

  In the folder with one image and one text file there is one eligible entry and there
  are two rows: the text file, which the script does not skip (see C1), has a row in the
  error table.
\<close>

theorem report_rows_exceed_eligible_entries:
  "length (filter spec_eligible [''notes.txt'', ''a.jpg'']) = 1
   \<and> written (final (main notes_env ''d'' ''out/r.csv'' ''out/e.csv'' notes_state)) =
       [(''out/r.csv'', ResultTable [''a.jpg''] [''2.Detail-landscape''] [''2''] [91/100]),
        (''out/e.csv'', ErrorTable [''d/notes.txt''])]"
proof -
  have a: "length (filter spec_eligible [''notes.txt'', ''a.jpg'']) = 1"
    by (simp add: spec_eligible_def labels_def img_type_def suffix_def)
  have b: "written (final (main notes_env ''d'' ''out/r.csv'' ''out/e.csv'' notes_state)) =
       [(''out/r.csv'', ResultTable [''a.jpg''] [''2.Detail-landscape''] [''2''] [91/100]),
        (''out/e.csv'', ErrorTable [''d/notes.txt''])]"
    by (simp add: eval_defs fixture_defs)
  from a b show ?thesis by blast
qed

subsection \<open>C5: what a failure record holds\<close>

text \<open>
  Claim C5: a failure record is the bare file name of the failing entry.

  The handler appends \<open>name\<close>, which line 206 sets to \<open>os.path.join(imgpath, infile)\<close>.
  In the scenario of section 8 the error table holds \<open>d/b.png\<close>, not \<open>b.png\<close>.
\<close>

theorem failure_record_is_a_path:
  "written (final (main spec_env ''d'' ''out/r.csv'' ''out/e.csv'' spec_state)) =
     [(''out/r.csv'',
       ResultTable [''a.jpg'', ''c.bmp''] [''2.Detail-landscape'', ''0.Panoramic-landscape'']
         [''2'', ''0''] [91/100, 60/100]),
      (''out/e.csv'', ErrorTable [''d/b.png''])]
   \<and> ''d/b.png'' \<noteq> ''b.png''"
proof -
  have "written (final (main spec_env ''d'' ''out/r.csv'' ''out/e.csv'' spec_state)) =
     [(''out/r.csv'',
       ResultTable [''a.jpg'', ''c.bmp''] [''2.Detail-landscape'', ''0.Panoramic-landscape'']
         [''2'', ''0''] [91/100, 60/100]),
      (''out/e.csv'', ErrorTable [''d/b.png''])]"
    by (simp add: eval_defs fixture_defs)
  then show ?thesis by simp
qed

text \<open>
  Claim C5 as amended: when \<open>main\<close> reaches its reports, every record of the error ledger
  is \<open>os.path.join(imgpath, x)\<close> for an entry \<open>x\<close> of the listing, which differs from
  \<open>x\<close> for a non-empty folder path and a relative, non-empty file name; and for an entry
  whose image stage or network raises, the record appended is the joined path of that
  entry.
\<close>

theorem failure_records_are_joined_paths:
  "(main_loop env ip w = Inr s \<and> listdir env ip = Inr lst \<and> r \<in> set (error s) \<longrightarrow>
      (\<exists>x \<in> set lst. r = path_join ip x
         \<and> (ip \<noteq> [] \<and> x \<noteq> [] \<and> hd x \<noteq> CHR ''/'' \<longrightarrow> r \<noteq> x)))
   \<and> (\<not> isl (ensure_categories env ip x0 labels (fs s0)) \<and> isl (fst (try_body env ip x0 s0)) \<longrightarrow>
        error (final (iteration env ip s0 x0)) = error s0 @ [path_join ip x0])"
proof (intro conjI impI)
  assume a: "main_loop env ip w = Inr s \<and> listdir env ip = Inr lst \<and> r \<in> set (error s)"
  then have "set (error s) \<subseteq> path_join ip ` set lst"
    using main_loop_invariants(4) by blast
  with a obtain x where x: "x \<in> set lst" "r = path_join ip x" by auto
  then have "ip \<noteq> [] \<and> x \<noteq> [] \<and> hd x \<noteq> CHR ''/'' \<longrightarrow> r \<noteq> x"
    by (simp add: path_join_neq)
  with x show "\<exists>x \<in> set lst. r = path_join ip x
         \<and> (ip \<noteq> [] \<and> x \<noteq> [] \<and> hd x \<noteq> CHR ''/'' \<longrightarrow> r \<noteq> x)"
    by blast
next
  assume "\<not> isl (ensure_categories env ip x0 labels (fs s0)) \<and> isl (fst (try_body env ip x0 s0))"
  then show "error (final (iteration env ip s0 x0)) = error s0 @ [path_join ip x0]"
    by (simp add: iteration_stage_fails_reached final_simps)
qed

text \<open>An instance: the corrupt file of the scenario.\<close>

theorem failure_records_are_joined_paths_witness:
  "main_loop spec_env ''d'' spec_state = Inr (final (main_loop spec_env ''d'' spec_state))
   \<and> listdir spec_env ''d'' = Inr [''c.bmp'', ''a.jpg'', ''b.png'']
   \<and> ''d/b.png'' \<in> set (error (final (main_loop spec_env ''d'' spec_state)))
   \<and> (\<exists>x \<in> set [''c.bmp'', ''a.jpg'', ''b.png'']. ''d/b.png'' = path_join ''d'' x \<and> ''d/b.png'' \<noteq> x)
   \<and> \<not> isl (ensure_categories spec_env ''d'' ''b.png'' labels (fs spec_state))
   \<and> isl (fst (try_body spec_env ''d'' ''b.png'' spec_state))
   \<and> error (final (iteration spec_env ''d'' spec_state ''b.png'')) = [''d/b.png'']"
proof -
  have h1: "main_loop spec_env ''d'' spec_state = Inr (final (main_loop spec_env ''d'' spec_state))"
    by (simp add: eval_defs fixture_defs)
  have h2: "listdir spec_env ''d'' = Inr [''c.bmp'', ''a.jpg'', ''b.png'']"
    by (simp add: eval_defs fixture_defs)
  have h3: "''d/b.png'' \<in> set (error (final (main_loop spec_env ''d'' spec_state)))"
    by (simp add: eval_defs fixture_defs)
  have h4: "\<not> isl (ensure_categories spec_env ''d'' ''b.png'' labels (fs spec_state))"
    by (simp add: eval_defs fixture_defs)
  have h5: "isl (fst (try_body spec_env ''d'' ''b.png'' spec_state))"
    by (simp add: eval_defs fixture_defs)
  have e0: "error spec_state = []" and pj: "path_join ''d'' ''b.png'' = ''d/b.png''"
    by (simp_all add: eval_defs fixture_defs)
  note t = failure_records_are_joined_paths
    [where env = spec_env and ip = "''d''" and w = spec_state
       and s = "final (main_loop spec_env ''d'' spec_state)"
       and lst = "[''c.bmp'', ''a.jpg'', ''b.png'']" and r = "''d/b.png''"
       and ?x0.0 = "''b.png''" and ?s0.0 = spec_state]
  from t h1 h2 h3 have c1: "\<exists>x \<in> set [''c.bmp'', ''a.jpg'', ''b.png''].
      ''d/b.png'' = path_join ''d'' x \<and> (''d'' \<noteq> [] \<and> x \<noteq> [] \<and> hd x \<noteq> CHR ''/'' \<longrightarrow> ''d/b.png'' \<noteq> x)"
    by blast
  then have c1': "\<exists>x \<in> set [''c.bmp'', ''a.jpg'', ''b.png''].
      ''d/b.png'' = path_join ''d'' x \<and> ''d/b.png'' \<noteq> x"
    by auto
  from t h4 h5 have "error (final (iteration spec_env ''d'' spec_state ''b.png''))
      = error spec_state @ [path_join ''d'' ''b.png'']"
    by blast
  then have c2: "error (final (iteration spec_env ''d'' spec_state ''b.png'')) = [''d/b.png'']"
    by (simp only: e0 pj append_Nil)
  from h1 h2 h3 c1' h4 h5 c2 show ?thesis by blast
qed

subsection \<open>C6: the decision\<close>

text \<open>
  Claim C6: for a probability vector of length K the decision (lines 223--224) returns the
  index of the greatest entry, the lowest such index where several entries are greatest,
  together with the value at that index. \<open>decide\<close> is a function, so a vector has one
  result. The theorem holds for every non-empty vector.
\<close>

theorem decide_lowest_index_of_maximum:
  "p \<noteq> [] \<Longrightarrow>
     \<exists>i c. decide p = Inr (i, c) \<and> i < length p \<and> c = p ! i
       \<and> (\<forall>j < length p. p ! j \<le> c) \<and> (\<forall>j < i. p ! j < c)"
proof -
  assume ne: "p \<noteq> []"
  from decide_spec [OF ne] obtain i where i: "decide p = Inr (i, Max (set p))"
    "i < length p" "p ! i = Max (set p)" "\<forall>j < i. p ! j < Max (set p)"
    by blast
  have "\<forall>j < length p. p ! j \<le> Max (set p)" by simp
  with i show ?thesis by auto
qed

text \<open>An instance: seven probabilities whose greatest value stands at the indices 1 and 3.\<close>

theorem decide_lowest_index_of_maximum_witness:
  "[1/10, 3/10, 1/10, 3/10, 1/10, 1/20, 1/20 :: real] \<noteq> []
   \<and> decide [1/10, 3/10, 1/10, 3/10, 1/10, 1/20, 1/20] = Inr (1, 3/10)"
proof -
  have ne: "[1/10, 3/10, 1/10, 3/10, 1/10, 1/20, 1/20 :: real] \<noteq> []" by simp
  show ?thesis
    using ne decide_lowest_index_of_maximum [OF ne]
    by (simp add: decide_def py_max_def py_index_def)
qed

subsection \<open>C7: the recorded confidence\<close>

text \<open>
  Claim C7: for an entry processed with success, the confidence recorded is the greatest
  entry of the softmax output, the probability of the category recorded for the entry.
  The softmax output is one row of K = 7 probabilities.
\<close>

theorem confidence_is_max_probability:
  assumes "try_body env ip x s = (Inr [p], s1)"
    and "length p = length labels"
    and "iteration env ip s x = Inr s'"
  shows "\<exists>i < length labels. p ! i = Max (set p) \<and> (\<forall>j < i. p ! j < Max (set p))
           \<and> rate s' = rate s @ [Max (set p)]
           \<and> imgname s' = imgname s @ [x]
           \<and> imglabel s' = imglabel s @ [labels ! i]
           \<and> imglabelnum s' = imglabelnum s @ [labelsnum ! i]"
proof -
  from assms(2) have ne: "p \<noteq> []" by (auto simp: length_labels)
  from try_body_Inr [OF assms(1)] have
    led: "rate s1 = rate s" "imgname s1 = imgname s" "imglabel s1 = imglabel s"
         "imglabelnum s1 = imglabelnum s"
    by auto
  from assms(1,3) have "else_body env ip x [p] s1 = Inr s'"
    by (simp add: iteration_def)
  from else_body_Inr [OF this] obtain tlist i best_out f' where
    tl: "transfer_list [p] = Inr tlist" and d: "decide tlist = Inr (i, best_out)"
    and s': "s' = s1\<lparr>fs := f', imgname := imgname s1 @ [x],
                     imglabel := imglabel s1 @ [labels ! i],
                     imglabelnum := imglabelnum s1 @ [labelsnum ! i],
                     rate := rate s1 @ [best_out]\<rparr>"
    by blast
  from tl have tp: "tlist = p" by (simp add: transfer_list_single [OF assms(2)])
  from decide_spec [OF ne] d tp have
    i: "i < length p" "p ! i = Max (set p)" "\<forall>j < i. p ! j < Max (set p)"
    and b: "best_out = Max (set p)"
    by auto
  from i(1) assms(2) have "i < length labels" by simp
  with i b s' led show ?thesis by auto
qed

text \<open>An instance: the image \<open>a.jpg\<close> of the scenario.\<close>

theorem confidence_is_max_probability_witness:
  "fst (try_body spec_env ''d'' ''a.jpg'' spec_state)
      = Inr [[15/1000, 15/1000, 91/100, 15/1000, 15/1000, 15/1000, 15/1000]]
   \<and> \<not> isl (iteration spec_env ''d'' spec_state ''a.jpg'')
   \<and> rate (final (iteration spec_env ''d'' spec_state ''a.jpg'')) = [91/100]
   \<and> Max (set [15/1000, 15/1000, 91/100, 15/1000, 15/1000, 15/1000, 15/1000 :: real]) = 91/100"
proof -
  let ?p = "[15/1000, 15/1000, 91/100, 15/1000, 15/1000, 15/1000, 15/1000 :: real]"
  have f: "fst (try_body spec_env ''d'' ''a.jpg'' spec_state) = Inr [?p]"
    by (simp add: eval_defs fixture_defs)
  then have h1: "try_body spec_env ''d'' ''a.jpg'' spec_state
      = (Inr [?p], snd (try_body spec_env ''d'' ''a.jpg'' spec_state))"
    by (simp add: prod_eq_iff)
  have h2: "length ?p = length labels" by (simp add: labels_def)
  have h3: "iteration spec_env ''d'' spec_state ''a.jpg''
      = Inr (final (iteration spec_env ''d'' spec_state ''a.jpg''))"
    by (simp add: eval_defs fixture_defs)
  have r0: "rate spec_state = []" by (simp add: eval_defs fixture_defs)
  from confidence_is_max_probability [OF h1 h2 h3] r0
  have c: "rate (final (iteration spec_env ''d'' spec_state ''a.jpg'')) = [Max (set ?p)]"
    by auto
  have m: "Max (set ?p) = 91/100" by simp
  have n: "\<not> isl (iteration spec_env ''d'' spec_state ''a.jpg'')"
    by (subst h3) simp
  from f n c m show ?thesis by (simp only: simp_thms)
qed

subsection \<open>C8: the reports\<close>

text \<open>
  Claim C8: for every processed folder the result table is always written, with no row
  when there is no success, and the error table is written iff the error ledger is not
  empty.

  The reports are written at the end of \<open>main\<close> (lines 233--246), which an exception
  that leaves the loop over the entries never reaches. In the folder in which no directory
  can be created the handler raises at the first entry, and no table is written.
\<close>

theorem no_report_when_loop_raises:
  "raised (main readonly_env ''root/d1'' ''out/r.csv'' ''out/e.csv'' readonly_state)
     = Some UnboundLocalError
   \<and> written (final (main readonly_env ''root/d1'' ''out/r.csv'' ''out/e.csv'' readonly_state))
     = []"
proof -
  have a: "raised (main readonly_env ''root/d1'' ''out/r.csv'' ''out/e.csv'' readonly_state)
     = Some UnboundLocalError"
    by (simp add: eval_defs fixture_defs)
  have b: "written (final (main readonly_env ''root/d1'' ''out/r.csv'' ''out/e.csv''
     readonly_state)) = []"
    by (simp add: eval_defs fixture_defs)
  from a b show ?thesis by blast
qed

text \<open>
  Claim C8 as amended: for a folder whose loop over the entries ends without an exception,
  and whose CSV files can be written, the result table is written, with no row when there
  is no success, and the error table is written iff the error ledger is not empty. When an
  exception leaves the loop, \<open>main\<close> ends with it and writes nothing; when writing the
  result table raises, \<open>main\<close> ends with that exception and has written nothing.
\<close>

theorem reports_written_after_loop:
  "(main_loop env ip w = Inr s \<and> to_csv_fault env csv_path = None
      \<and> (error s = [] \<or> to_csv_fault env error_csv_path = None) \<longrightarrow>
      raised (main env ip csv_path error_csv_path w) = None
      \<and> written (final (main env ip csv_path error_csv_path w)) =
          written w @ (csv_path, ResultTable (imgname s) (imglabel s) (imglabelnum s) (rate s))
            # (if error s = [] then [] else [(error_csv_path, ErrorTable (error s))]))
   \<and> (isl (main_loop env ip w) \<longrightarrow>
      main env ip csv_path error_csv_path w = main_loop env ip w
      \<and> written (final (main env ip csv_path error_csv_path w)) = written w)
   \<and> (main_loop env ip w = Inr s \<and> to_csv_fault env csv_path = Some e \<longrightarrow>
      main env ip csv_path error_csv_path w = Inl (e, s) \<and> written s = written w)"
proof (intro conjI impI)
  assume a: "main_loop env ip w = Inr s \<and> to_csv_fault env csv_path = None
      \<and> (error s = [] \<or> to_csv_fault env error_csv_path = None)"
  then obtain lst where l: "listdir env ip = Inr lst"
    using main_loop_listed by blast
  from a have ml: "main_loop env ip w = Inr s" by simp
  note inv = main_loop_invariants [OF ml l]
  from a have c: "to_csv_fault env csv_path = None"
    and e: "error s \<noteq> [] \<Longrightarrow> to_csv_fault env error_csv_path = None"
    by auto
  from ml have m: "main env ip csv_path error_csv_path w = flush env csv_path error_csv_path s"
    by (simp add: main_def)
  from flush_outcome [OF inv(2) c e] m inv(1)
  show "raised (main env ip csv_path error_csv_path w) = None"
    and "written (final (main env ip csv_path error_csv_path w)) =
          written w @ (csv_path, ResultTable (imgname s) (imglabel s) (imglabelnum s) (rate s))
            # (if error s = [] then [] else [(error_csv_path, ErrorTable (error s))])"
    by simp_all
next
  assume a: "isl (main_loop env ip w)"
  then show m: "main env ip csv_path error_csv_path w = main_loop env ip w"
    by (cases "main_loop env ip w") (simp_all add: main_def)
  show "written (final (main env ip csv_path error_csv_path w)) = written w"
    unfolding m by (rule main_loop_written)
next
  assume a: "main_loop env ip w = Inr s \<and> to_csv_fault env csv_path = Some e"
  then obtain lst where l: "listdir env ip = Inr lst"
    using main_loop_listed by blast
  from a have ml: "main_loop env ip w = Inr s" by simp
  note inv = main_loop_invariants [OF ml l]
  from a inv(2) ml show "main env ip csv_path error_csv_path w = Inl (e, s)"
    by (simp add: main_def flush_first_fault)
  from inv(1) show "written s = written w" .
qed

text \<open>Instances: the empty folder, with a result table of no rows and no error table;
  the scenario of section 8, with both tables; the folder in which no directory can be
  created; the empty folder whose CSV files cannot be written.\<close>

theorem reports_written_after_loop_witness:
  "\<not> isl (main_loop empty_env ''d'' empty_state)
   \<and> to_csv_fault empty_env ''out/r.csv'' = None
   \<and> error (final (main_loop empty_env ''d'' empty_state)) = []
   \<and> raised (main empty_env ''d'' ''out/r.csv'' ''out/e.csv'' empty_state) = None
   \<and> written (final (main empty_env ''d'' ''out/r.csv'' ''out/e.csv'' empty_state))
       = [(''out/r.csv'', ResultTable [] [] [] [])]
   \<and> \<not> isl (main_loop spec_env ''d'' spec_state)
   \<and> to_csv_fault spec_env ''out/r.csv'' = None
   \<and> to_csv_fault spec_env ''out/e.csv'' = None
   \<and> written (final (main spec_env ''d'' ''out/r.csv'' ''out/e.csv'' spec_state))
       = [(''out/r.csv'',
           ResultTable [''a.jpg'', ''c.bmp'']
             [''2.Detail-landscape'', ''0.Panoramic-landscape''] [''2'', ''0'']
             [91/100, 60/100]),
          (''out/e.csv'', ErrorTable [''d/b.png''])]
   \<and> isl (main_loop readonly_env ''root/d1'' readonly_state)
   \<and> written (final (main readonly_env ''root/d1'' ''out/r.csv'' ''out/e.csv''
         readonly_state)) = written readonly_state
   \<and> to_csv_fault sealed_env ''out/r.csv'' = Some PermissionError
   \<and> raised (main sealed_env ''d'' ''out/r.csv'' ''out/e.csv'' empty_state)
       = Some PermissionError
   \<and> written (final (main sealed_env ''d'' ''out/r.csv'' ''out/e.csv'' empty_state)) = []"
proof -
  let ?s = "final (main_loop empty_env ''d'' empty_state)"
  let ?t = "final (main_loop spec_env ''d'' spec_state)"
  let ?u = "final (main_loop sealed_env ''d'' empty_state)"
  have h1: "main_loop empty_env ''d'' empty_state = Inr ?s"
    by (simp add: eval_defs fixture_defs)
  then have n1: "\<not> isl (main_loop empty_env ''d'' empty_state)" by (metis sum.disc(2))
  have f1: "to_csv_fault empty_env ''out/r.csv'' = None"
    by (simp add: eval_defs fixture_defs)
  have e1: "error ?s = []" "imgname ?s = []" "imglabel ?s = []" "imglabelnum ?s = []"
    "rate ?s = []" "written empty_state = []"
    by (simp_all add: eval_defs fixture_defs)
  note t1 = reports_written_after_loop
    [where env = empty_env and ip = "''d''" and w = empty_state and s = ?s
       and csv_path = "''out/r.csv''" and error_csv_path = "''out/e.csv''"]
  from t1 h1 f1 e1(1)
  have c1: "raised (main empty_env ''d'' ''out/r.csv'' ''out/e.csv'' empty_state) = None"
    and c1w: "written (final (main empty_env ''d'' ''out/r.csv'' ''out/e.csv'' empty_state)) =
          written empty_state @ (''out/r.csv'', ResultTable (imgname ?s) (imglabel ?s)
            (imglabelnum ?s) (rate ?s)) # (if error ?s = [] then [] else
              [(''out/e.csv'', ErrorTable (error ?s))])"
    by blast+
  from c1w have c1': "written (final (main empty_env ''d'' ''out/r.csv'' ''out/e.csv'' empty_state))
       = [(''out/r.csv'', ResultTable [] [] [] [])]"
    by (simp add: e1)
  have h2: "main_loop spec_env ''d'' spec_state = Inr ?t"
    by (simp add: eval_defs fixture_defs)
  then have n2: "\<not> isl (main_loop spec_env ''d'' spec_state)" by (metis sum.disc(2))
  have f2: "to_csv_fault spec_env ''out/r.csv'' = None"
    "to_csv_fault spec_env ''out/e.csv'' = None"
    by (simp_all add: eval_defs fixture_defs)
  have e2: "error ?t = [''d/b.png'']" "imgname ?t = [''a.jpg'', ''c.bmp'']"
    "imglabel ?t = [''2.Detail-landscape'', ''0.Panoramic-landscape'']"
    "imglabelnum ?t = [''2'', ''0'']" "rate ?t = [91/100, 60/100]" "written spec_state = []"
    by (simp_all add: eval_defs fixture_defs)
  note t2 = reports_written_after_loop
    [where env = spec_env and ip = "''d''" and w = spec_state and s = ?t
       and csv_path = "''out/r.csv''" and error_csv_path = "''out/e.csv''"]
  from t2 h2 f2
  have "written (final (main spec_env ''d'' ''out/r.csv'' ''out/e.csv'' spec_state)) =
          written spec_state @ (''out/r.csv'', ResultTable (imgname ?t) (imglabel ?t)
            (imglabelnum ?t) (rate ?t)) # (if error ?t = [] then [] else
              [(''out/e.csv'', ErrorTable (error ?t))])"
    by blast
  then have c2: "written (final (main spec_env ''d'' ''out/r.csv'' ''out/e.csv'' spec_state))
       = [(''out/r.csv'',
           ResultTable [''a.jpg'', ''c.bmp'']
             [''2.Detail-landscape'', ''0.Panoramic-landscape''] [''2'', ''0'']
             [91/100, 60/100]),
          (''out/e.csv'', ErrorTable [''d/b.png''])]"
    by (simp add: e2)
  have h3: "isl (main_loop readonly_env ''root/d1'' readonly_state)"
    by (simp add: eval_defs fixture_defs)
  note t3 = reports_written_after_loop
    [where env = readonly_env and ip = "''root/d1''" and w = readonly_state
       and csv_path = "''out/r.csv''" and error_csv_path = "''out/e.csv''"]
  from t3 h3
  have c3: "written (final (main readonly_env ''root/d1'' ''out/r.csv'' ''out/e.csv''
         readonly_state)) = written readonly_state"
    by blast
  have h4: "main_loop sealed_env ''d'' empty_state = Inr ?u"
    by (simp add: eval_defs fixture_defs)
  have f4: "to_csv_fault sealed_env ''out/r.csv'' = Some PermissionError"
    by (simp add: eval_defs fixture_defs)
  have w4: "written empty_state = []" by (simp add: eval_defs fixture_defs)
  note t4 = reports_written_after_loop
    [where env = sealed_env and ip = "''d''" and w = empty_state and s = ?u
       and csv_path = "''out/r.csv''" and error_csv_path = "''out/e.csv''"
       and e = PermissionError]
  from t4 h4 f4
  have m4: "main sealed_env ''d'' ''out/r.csv'' ''out/e.csv'' empty_state
      = Inl (PermissionError, ?u)" and wu: "written ?u = written empty_state"
    by blast+
  from m4 have c4: "raised (main sealed_env ''d'' ''out/r.csv'' ''out/e.csv'' empty_state)
       = Some PermissionError"
    by (simp only: raised_simps)
  from m4 wu w4
  have c5: "written (final (main sealed_env ''d'' ''out/r.csv'' ''out/e.csv'' empty_state)) = []"
    by (simp only: final_simps)
  from n1 f1 e1(1) c1 c1' n2 f2 c2 h3 c3 f4 c4 c5 show ?thesis by blast
qed

subsection \<open>C9: the category folders\<close>

text \<open>
  Claim C9: creating the category folders a second time in the same folder raises nothing
  and creates nothing, directories that exist are accepted as they are, and no category
  folder is ever removed or renamed.

  The creation for an entry leaves out the label equal to the name of the entry (lines
  198--199). In the folder with a regular file named like category 0, the creation for that
  entry ends without an exception, and the creation for the next entry, \<open>a.jpg\<close>, in the
  file system just reached, raises.
\<close>

theorem creation_for_next_entry_raises:
  "\<not> isl (ensure_categories clash_env ''d'' ''0.Panoramic-landscape'' labels (fs clash_state))
   \<and> isl (ensure_categories clash_env ''d'' ''a.jpg'' labels
        (reached (ensure_categories clash_env ''d'' ''0.Panoramic-landscape'' labels
           (fs clash_state))))"
proof -
  have a: "\<not> isl (ensure_categories clash_env ''d'' ''0.Panoramic-landscape'' labels
      (fs clash_state))"
    by (simp add: eval_defs fixture_defs)
  have b: "isl (ensure_categories clash_env ''d'' ''a.jpg'' labels
        (reached (ensure_categories clash_env ''d'' ''0.Panoramic-landscape'' labels
           (fs clash_state))))"
    by (simp add: eval_defs fixture_defs)
  from a b show ?thesis by blast
qed

text \<open>
  Claim C9 as amended: after a creation for an entry \<open>x\<close> that ended without an
  exception, a creation for an entry \<open>y\<close> in the file system reached raises nothing and
  changes nothing, provided \<open>y\<close> is \<open>x\<close>, or \<open>x\<close> is not a label, or the category folder
  named \<open>x\<close> exists; when all category folders exist, a creation changes nothing; and every
  directory of the file system is still a directory at its path after one iteration and
  after a whole run, whether or not an exception ends it.
\<close>

theorem category_folders_idempotent_and_kept:
  "(ensure_categories env ip x labels f = Inr f'
      \<and> (y = x \<or> x \<notin> set labels \<or> isdir f' (path_join ip x)) \<longrightarrow>
      ensure_categories env ip y labels f' = Inr f')
   \<and> ((\<forall>l \<in> set labels. isdir f (path_join ip l)) \<longrightarrow>
      ensure_categories env ip x labels f = Inr f)
   \<and> keeps_dirs (fs s) (fs (final (iteration env ip s x)))
   \<and> keeps_dirs (fs w) (fs (final (run env rootfolder output w)))"
proof (intro conjI impI)
  assume a: "ensure_categories env ip x labels f = Inr f'
      \<and> (y = x \<or> x \<notin> set labels \<or> isdir f' (path_join ip x))"
  then have d: "\<forall>l \<in> set labels. l \<noteq> x \<longrightarrow> isdir f' (path_join ip l)"
    using ensure_dirs by blast
  have "\<forall>l \<in> set labels. l \<noteq> y \<longrightarrow> isdir f' (path_join ip l)"
  proof (intro ballI impI)
    fix l assume l: "l \<in> set labels" "l \<noteq> y"
    show "isdir f' (path_join ip l)"
    proof (cases "l = x")
      case True
      with a l show ?thesis by auto
    next
      case False
      with d l show ?thesis by simp
    qed
  qed
  then show "ensure_categories env ip y labels f' = Inr f'" by (rule ensure_noop)
next
  assume "\<forall>l \<in> set labels. isdir f (path_join ip l)"
  then show "ensure_categories env ip x labels f = Inr f"
    by (intro ensure_noop) simp
next
  show "keeps_dirs (fs s) (fs (final (iteration env ip s x)))" by (rule iteration_keeps)
next
  show "keeps_dirs (fs w) (fs (final (run env rootfolder output w)))" by (rule run_keeps)
qed

text \<open>Instances: the folder of the scenario (creation for \<open>a.jpg\<close>, then for \<open>c.bmp\<close> and
  for \<open>b.png\<close>), the folder processed before, the root folder.\<close>

theorem category_folders_idempotent_and_kept_witness:
  "\<not> isl (ensure_categories spec_env ''d'' ''a.jpg'' labels (fs spec_state))
   \<and> ''a.jpg'' \<notin> set labels
   \<and> ensure_categories spec_env ''d'' ''c.bmp'' labels
        (reached (ensure_categories spec_env ''d'' ''a.jpg'' labels (fs spec_state)))
       = Inr (reached (ensure_categories spec_env ''d'' ''a.jpg'' labels (fs spec_state)))
   \<and> ensure_categories spec_env ''d'' ''b.png'' labels
        (reached (ensure_categories spec_env ''d'' ''a.jpg'' labels (fs spec_state)))
       = Inr (reached (ensure_categories spec_env ''d'' ''a.jpg'' labels (fs spec_state)))
   \<and> fs rerun_state ''d/0.Panoramic-landscape'' = Some Dir
   \<and> fs (final (iteration rerun_env ''d'' rerun_state ''photo.tif''))
        ''d/0.Panoramic-landscape'' = Some Dir
   \<and> fs readonly_state ''root/d1'' = Some Dir
   \<and> fs (final (run readonly_env ''root'' ''out'' readonly_state)) ''root/d1'' = Some Dir"
proof -
  let ?f' = "reached (ensure_categories spec_env ''d'' ''a.jpg'' labels (fs spec_state))"
  have h1: "ensure_categories spec_env ''d'' ''a.jpg'' labels (fs spec_state) = Inr ?f'"
    by (simp add: eval_defs fixture_defs)
  then have n1: "\<not> isl (ensure_categories spec_env ''d'' ''a.jpg'' labels (fs spec_state))"
    by (metis sum.disc(2))
  have h2: "fs rerun_state ''d/0.Panoramic-landscape'' = Some Dir"
    by (simp add: eval_defs fixture_defs)
  have h3: "fs readonly_state ''root/d1'' = Some Dir"
    by (simp add: eval_defs fixture_defs)
  have nl: "''a.jpg'' \<notin> set labels" by (simp add: labels_def)
  note t = category_folders_idempotent_and_kept
    [where env = spec_env and ip = "''d''" and x = "''a.jpg''" and f = "fs spec_state"
       and f' = ?f' and y = "''c.bmp''"]
  have h4: "\<forall>l \<in> set labels. isdir ?f' (path_join ''d'' l)"
    by (simp add: eval_defs fixture_defs)
  note t2 = category_folders_idempotent_and_kept
    [where env = spec_env and ip = "''d''" and x = "''b.png''" and f = ?f']
  from t2 h4 have c0: "ensure_categories spec_env ''d'' ''b.png'' labels ?f' = Inr ?f'"
    by blast
  note u = category_folders_idempotent_and_kept
    [where env = rerun_env and ip = "''d''" and x = "''photo.tif''" and s = rerun_state]
  note v = category_folders_idempotent_and_kept
    [where env = readonly_env and rootfolder = "''root''" and ?output = "''out''"
       and w = readonly_state]
  from t h1 nl have c1: "ensure_categories spec_env ''d'' ''c.bmp'' labels ?f' = Inr ?f'"
    by blast
  from u have "keeps_dirs (fs rerun_state)
      (fs (final (iteration rerun_env ''d'' rerun_state ''photo.tif'')))"
    by blast
  with h2 have c2: "fs (final (iteration rerun_env ''d'' rerun_state ''photo.tif''))
        ''d/0.Panoramic-landscape'' = Some Dir"
    unfolding keeps_dirs_def by blast
  from v have "keeps_dirs (fs readonly_state)
      (fs (final (run readonly_env ''root'' ''out'' readonly_state)))"
    by blast
  with h3 have c3: "fs (final (run readonly_env ''root'' ''out'' readonly_state)) ''root/d1''
      = Some Dir"
    unfolding keeps_dirs_def by blast
  from n1 nl c1 c0 h2 c2 h3 c3 show ?thesis by blast
qed

subsection \<open>C10: the variable \<open>name\<close> in the handler\<close>

text \<open>
  Claim C10: the handler records the value \<open>name\<close> has when the exception is raised; for
  an entry that fails before \<open>name\<close> is assigned again, that is the path of the previous
  entry; and when the first entry of the sorted listing fails there, \<open>name\<close> is unbound,
  the handler raises, and the whole run ends.

  The value of \<open>name\<close> is the path of the last entry that got past the creation of the
  category folders, which need not be the previous one. In the folder with the regular
  file and two images the creation fails for \<open>a.jpg\<close> and for \<open>b.jpg\<close>; the record of
  \<open>b.jpg\<close> is the path of the regular file, not the path of \<open>a.jpg\<close>.
\<close>

theorem stale_record_is_not_previous_entry:
  "sort [''b.jpg'', ''a.jpg'', ''0.Panoramic-landscape'']
     = [''0.Panoramic-landscape'', ''a.jpg'', ''b.jpg'']
   \<and> written (final (main clash3_env ''d'' ''out/r.csv'' ''out/e.csv'' clash3_state)) =
       [(''out/r.csv'', ResultTable [] [] [] []),
        (''out/e.csv'', ErrorTable [''d/0.Panoramic-landscape'', ''d/0.Panoramic-landscape'',
           ''d/0.Panoramic-landscape''])]
   \<and> path_join ''d'' ''a.jpg'' \<noteq> ''d/0.Panoramic-landscape''"
proof -
  have a: "sort [''b.jpg'', ''a.jpg'', ''0.Panoramic-landscape'']
     = [''0.Panoramic-landscape'', ''a.jpg'', ''b.jpg'']"
    by simp
  have b: "written (final (main clash3_env ''d'' ''out/r.csv'' ''out/e.csv'' clash3_state)) =
       [(''out/r.csv'', ResultTable [] [] [] []),
        (''out/e.csv'', ErrorTable [''d/0.Panoramic-landscape'', ''d/0.Panoramic-landscape'',
           ''d/0.Panoramic-landscape''])]"
    by (simp add: eval_defs fixture_defs)
  have c: "path_join ''d'' ''a.jpg'' \<noteq> ''d/0.Panoramic-landscape''"
    by (simp add: path_join_def)
  from a b c show ?thesis by blast
qed

text \<open>
  Claim C10 as amended: when the creation of the category folders raises for an entry and
  \<open>name\<close> is bound, the handler records the value of \<open>name\<close>; that value is the path of
  the previous entry when the previous entry got past the creation and its iteration ended
  without an exception; and when the creation raises for the first entry of the sorted
  listing, \<open>name\<close> is unbound, the handler raises, and the exception ends the loop over
  the sub-folders: no further sub-folder is processed.
\<close>

theorem handler_reads_stale_or_unbound_name:
  "(isl (ensure_categories env ip y0 labels (fs s0)) \<and> name s0 = Some n \<longrightarrow>
      iteration env ip s0 y0 =
        Inr (s0\<lparr>fs := reached (ensure_categories env ip y0 labels (fs s0)),
               error := error s0 @ [n]\<rparr>))
   \<and> (\<not> isl (ensure_categories env ip x labels (fs s)) \<and> iteration env ip s x = Inr s1
      \<and> isl (ensure_categories env ip y labels (fs s1)) \<longrightarrow>
      iteration env ip s1 y =
        Inr (s1\<lparr>fs := reached (ensure_categories env ip y labels (fs s1)),
               error := error s1 @ [path_join ip x]\<rparr>))
   \<and> (listdir env (path_join rootfolder f) = Inr lst \<and> sort lst = x0 # rest
      \<and> isl (ensure_categories env (path_join rootfolder f) x0 labels (fs w)) \<longrightarrow>
      folders_loop env rootfolder output (f # frest) w =
        Inl (UnboundLocalError,
             (init_locals w)\<lparr>fs := reached
                (ensure_categories env (path_join rootfolder f) x0 labels (fs w))\<rparr>))"
proof (intro conjI impI)
  assume "isl (ensure_categories env ip y0 labels (fs s0)) \<and> name s0 = Some n"
  then show "iteration env ip s0 y0 =
        Inr (s0\<lparr>fs := reached (ensure_categories env ip y0 labels (fs s0)),
               error := error s0 @ [n]\<rparr>)"
    by (simp add: iteration_creation_fails_reached)
next
  assume a: "\<not> isl (ensure_categories env ip x labels (fs s)) \<and> iteration env ip s x = Inr s1
      \<and> isl (ensure_categories env ip y labels (fs s1))"
  then have "name s1 = Some (path_join ip x)"
    using iteration_binds_name by blast
  with a show "iteration env ip s1 y =
        Inr (s1\<lparr>fs := reached (ensure_categories env ip y labels (fs s1)),
               error := error s1 @ [path_join ip x]\<rparr>)"
    by (simp add: iteration_creation_fails_reached)
next
  let ?ip = "path_join rootfolder f"
  assume a: "listdir env ?ip = Inr lst \<and> sort lst = x0 # rest
      \<and> isl (ensure_categories env ?ip x0 labels (fs w))"
  then have "isl (ensure_categories env ?ip x0 labels (fs (init_locals w)))"
    by (simp add: init_locals_simps)
  from iteration_creation_fails_reached [OF this]
  have "iteration env ?ip (init_locals w) x0 =
      Inl (UnboundLocalError,
           (init_locals w)\<lparr>fs := reached (ensure_categories env ?ip x0 labels (fs w))\<rparr>)"
    by (simp add: init_locals_simps)
  with a have "main_loop env ?ip w =
      Inl (UnboundLocalError,
           (init_locals w)\<lparr>fs := reached (ensure_categories env ?ip x0 labels (fs w))\<rparr>)"
    by (simp add: main_loop_def)
  then show "folders_loop env rootfolder output (f # frest) w =
        Inl (UnboundLocalError,
             (init_locals w)\<lparr>fs := reached (ensure_categories env ?ip x0 labels (fs w))\<rparr>)"
    by (simp add: main_def Let_def)
qed

text \<open>Instances: the folder with the regular file, and the root folder in which no
  directory can be created.\<close>

theorem handler_reads_stale_or_unbound_name_witness:
  "\<not> isl (ensure_categories clash_env ''d'' ''0.Panoramic-landscape'' labels
           (fs (init_locals clash_state)))
   \<and> \<not> isl (iteration clash_env ''d'' (init_locals clash_state) ''0.Panoramic-landscape'')
   \<and> isl (ensure_categories clash_env ''d'' ''a.jpg'' labels
        (fs (final (iteration clash_env ''d'' (init_locals clash_state)
                      ''0.Panoramic-landscape''))))
   \<and> name (final (iteration clash_env ''d'' (init_locals clash_state)
                   ''0.Panoramic-landscape'')) = Some ''d/0.Panoramic-landscape''
   \<and> error (final (iteration clash_env ''d''
        (final (iteration clash_env ''d'' (init_locals clash_state) ''0.Panoramic-landscape''))
        ''a.jpg'')) = [''d/0.Panoramic-landscape'', ''d/0.Panoramic-landscape'']
   \<and> listdir readonly_env (path_join ''root'' ''d1'') = Inr [''a.jpg'']
   \<and> sort [''a.jpg''] = [''a.jpg'']
   \<and> isl (ensure_categories readonly_env (path_join ''root'' ''d1'') ''a.jpg'' labels
            (fs readonly_state))
   \<and> raised (folders_loop readonly_env ''root'' ''out'' [''d1'', ''d2''] readonly_state)
       = Some UnboundLocalError
   \<and> raised (run readonly_env ''root'' ''out'' readonly_state) = Some UnboundLocalError
   \<and> written (final (run readonly_env ''root'' ''out'' readonly_state)) = []"
proof -
  let ?s0 = "init_locals clash_state"
  let ?s1 = "final (iteration clash_env ''d'' ?s0 ''0.Panoramic-landscape'')"
  have h1: "\<not> isl (ensure_categories clash_env ''d'' ''0.Panoramic-landscape'' labels (fs ?s0))"
    by (simp add: eval_defs fixture_defs)
  have h2: "iteration clash_env ''d'' ?s0 ''0.Panoramic-landscape'' = Inr ?s1"
    by (simp add: eval_defs fixture_defs)
  then have h2': "\<not> isl (iteration clash_env ''d'' ?s0 ''0.Panoramic-landscape'')"
    by (metis sum.disc(2))
  have h3: "isl (ensure_categories clash_env ''d'' ''a.jpg'' labels (fs ?s1))"
    by (simp add: eval_defs fixture_defs)
  have nm: "name ?s1 = Some ''d/0.Panoramic-landscape''"
    by (simp add: eval_defs fixture_defs)
  have e1: "error ?s1 = [''d/0.Panoramic-landscape'']"
    and pj: "path_join ''d'' ''0.Panoramic-landscape'' = ''d/0.Panoramic-landscape''"
    by (simp_all add: eval_defs fixture_defs)
  have g1: "listdir readonly_env (path_join ''root'' ''d1'') = Inr [''a.jpg'']"
    by (simp add: eval_defs fixture_defs)
  have g2: "sort [''a.jpg''] = [''a.jpg'']" by simp
  have g3: "isl (ensure_categories readonly_env (path_join ''root'' ''d1'') ''a.jpg'' labels
            (fs readonly_state))"
    by (simp add: eval_defs fixture_defs)
  note t = handler_reads_stale_or_unbound_name
    [where env = clash_env and ip = "''d''" and x = "''0.Panoramic-landscape''" and s = ?s0
       and ?s1.0 = ?s1 and y = "''a.jpg''"]
  note u = handler_reads_stale_or_unbound_name
    [where env = readonly_env and rootfolder = "''root''" and f = "''d1''"
       and lst = "[''a.jpg'']" and ?x0.0 = "''a.jpg''" and rest = "[]" and w = readonly_state
       and ?output = "''out''" and frest = "[''d2'']"]
  note g = handler_reads_stale_or_unbound_name
    [where env = clash_env and ip = "''d''" and ?y0.0 = "''a.jpg''" and ?s0.0 = ?s1
       and n = "''d/0.Panoramic-landscape''"]
  from g h3 nm have "iteration clash_env ''d'' ?s1 ''a.jpg'' =
        Inr (?s1\<lparr>fs := reached (ensure_categories clash_env ''d'' ''a.jpg'' labels (fs ?s1)),
               error := error ?s1 @ [''d/0.Panoramic-landscape'']\<rparr>)"
    by blast
  from t h1 h2 h3 have "iteration clash_env ''d'' ?s1 ''a.jpg'' =
        Inr (?s1\<lparr>fs := reached (ensure_categories clash_env ''d'' ''a.jpg'' labels (fs ?s1)),
               error := error ?s1 @ [path_join ''d'' ''0.Panoramic-landscape'']\<rparr>)"
    by blast
  then have "error (final (iteration clash_env ''d'' ?s1 ''a.jpg''))
      = error ?s1 @ [path_join ''d'' ''0.Panoramic-landscape'']"
    by (simp only: final_simps) simp
  then have c1: "error (final (iteration clash_env ''d'' ?s1 ''a.jpg''))
      = [''d/0.Panoramic-landscape'', ''d/0.Panoramic-landscape'']"
    by (simp only: e1 pj) simp
  from u g1 g2 g3 have fl: "folders_loop readonly_env ''root'' ''out'' [''d1'', ''d2''] readonly_state =
        Inl (UnboundLocalError,
             (init_locals readonly_state)\<lparr>fs := reached
                (ensure_categories readonly_env (path_join ''root'' ''d1'') ''a.jpg'' labels
                   (fs readonly_state))\<rparr>)"
    by blast
  then have c2: "raised (folders_loop readonly_env ''root'' ''out'' [''d1'', ''d2''] readonly_state)
       = Some UnboundLocalError"
    by (simp only: raised_simps)
  have r: "run readonly_env ''root'' ''out'' readonly_state
      = folders_loop readonly_env ''root'' ''out'' [''d1'', ''d2''] readonly_state"
    by (simp add: run_def readonly_env_def demo_env_def)
  from c2 r have c3: "raised (run readonly_env ''root'' ''out'' readonly_state)
      = Some UnboundLocalError"
    by simp
  have "written (final (folders_loop readonly_env ''root'' ''out'' [''d1'', ''d2''] readonly_state))
      = []"
    unfolding fl by (simp add: final_simps init_locals_simps readonly_state_def demo_state_def)
  with r have c4: "written (final (run readonly_env ''root'' ''out'' readonly_state)) = []"
    by simp
  from h1 h2' h3 nm c1 g1 g2 g3 c2 c3 c4 show ?thesis by blast
qed

end
